theory Spec2Isabelle
  imports Complex_Main
begin

section \<open>JavaScript values used by the translation layer\<close>

text \<open>
  Strings are lists of code units. An optional property (\<^verbatim>\<open>id?: string\<close>) is a
  \<^typ>\<open>string option\<close>; \<^verbatim>\<open>if (x)\<close> on such a property holds when the property is
  present and the string is not empty.
\<close>

definition truthy :: "string option \<Rightarrow> bool" where
  "truthy s = (case s of None \<Rightarrow> False | Some v \<Rightarrow> v \<noteq> [])"

text \<open>\<^verbatim>\<open>a || b\<close> on an optional string \<open>a\<close> and a string \<open>b\<close>.\<close>

definition or_else :: "string option \<Rightarrow> string \<Rightarrow> string" where
  "or_else s d = (case s of None \<Rightarrow> d | Some v \<Rightarrow> (if v \<noteq> [] then v else d))"

definition startsWith :: "string \<Rightarrow> string \<Rightarrow> bool" where
  "startsWith s p = (take (length p) s = p)"

text \<open>The decimal digits of a number, as a template literal prints an index.\<close>

function string_of_nat :: "nat \<Rightarrow> string" where
  "string_of_nat n =
     (if n < 10 then [char_of (48 + n)]
      else string_of_nat (n div 10) @ [char_of (48 + n mod 10)])"
  by pat_completeness auto
termination
  by (relation "measure (\<lambda>n. n)") auto

declare string_of_nat.simps [simp del]

text \<open>
  A JSON value: what \<^verbatim>\<open>JSON.parse\<close> returns and what \<^verbatim>\<open>JSON.stringify\<close>
  prints. TypeScript's types are erased when the program runs, so a field declared
  \<^verbatim>\<open>number\<close> holds whatever value the caller passed.
\<close>

datatype json =
    JNull
  | JBool bool
  | JNum real
  | JStr string
  | JArr "json list"
  | JObj "(string \<times> json) list"

section \<open>The stop-reason table\<close>

text \<open>
  \<^verbatim>\<open>openaiToAnthropicStopReasonMap\<close> (streaming.ts) and \<^verbatim>\<open>stopReasonMap\<close>
  (converters) are the same object literal. Both paths read it with
  \<^verbatim>\<open>table[reason] || "end_turn"\<close>. The table is an ordinary object, so a key it does
  not own is looked up on \<^verbatim>\<open>Object.prototype\<close>: the names below find a function (or,
  for \<^verbatim>\<open>__proto__\<close>, the prototype object), which is truthy and is what the
  expression returns.
\<close>

definition openaiToAnthropicStopReasonMap :: "(string \<times> string) list" where
  "openaiToAnthropicStopReasonMap =
     [(''stop'', ''end_turn''),
      (''length'', ''max_tokens''),
      (''tool_calls'', ''tool_use''),
      (''function_call'', ''tool_use''),
      (''content_filter'', ''stop_sequence'')]"

definition object_prototype_keys :: "string list" where
  "object_prototype_keys =
     [''constructor'', ''hasOwnProperty'', ''isPrototypeOf'', ''propertyIsEnumerable'',
      ''toLocaleString'', ''toString'', ''valueOf'', ''__proto__'',
      ''__defineGetter__'', ''__defineSetter__'', ''__lookupGetter__'', ''__lookupSetter__'']"

datatype stop_value =
    StopReason string
  | InheritedProperty string

definition lookupStopReason :: "string \<Rightarrow> stop_value" where
  "lookupStopReason reason =
     (case map_of openaiToAnthropicStopReasonMap reason of
        Some v \<Rightarrow> (if v \<noteq> [] then StopReason v else StopReason ''end_turn'')
      | None \<Rightarrow>
          (if reason \<in> set object_prototype_keys then InheritedProperty reason
           else StopReason ''end_turn''))"

section \<open>Request translation: tool choice\<close>

text \<open>\<^verbatim>\<open>AnthropicToolChoice\<close>: \<^verbatim>\<open>{type: "auto" | "any" | "tool", name?: string}\<close>.\<close>

record AnthropicToolChoice =
  choice_type :: string
  choice_name :: "string option"

text \<open>The destination form: \<^verbatim>\<open>"auto" | "none" | {type: "function", function: {name}}\<close>.\<close>

datatype openai_tool_choice = ChoiceAuto | ChoiceNone | ChoiceFunction string

text \<open>
  \<^verbatim>\<open>convertAnthropicToolChoiceToOpenAI\<close>. An absent choice returns \<^verbatim>\<open>undefined\<close>
  (\<open>None\<close>).
\<close>

definition convertAnthropicToolChoiceToOpenAI ::
    "AnthropicToolChoice option \<Rightarrow> openai_tool_choice option" where
  "convertAnthropicToolChoiceToOpenAI anthropicChoice =
     (case anthropicChoice of
        None \<Rightarrow> None
      | Some c \<Rightarrow>
          (if choice_type c = ''auto'' then Some ChoiceAuto
           else if choice_type c = ''any'' then Some ChoiceAuto
           else if choice_type c = ''tool'' \<and> truthy (choice_name c)
             then Some (ChoiceFunction (or_else (choice_name c) []))
           else Some ChoiceAuto))"

text \<open>
  The \<^verbatim>\<open>tool_choice\<close> field of the payload \<^verbatim>\<open>handleAnthropicMessages\<close> builds:
  \<^verbatim>\<open>if (openaiToolChoice) openaiPayload.tool_choice = openaiToolChoice\<close>. Every value
  the converter returns other than \<^verbatim>\<open>undefined\<close> is truthy; \<open>None\<close> is a payload
  with no \<^verbatim>\<open>tool_choice\<close> field.
\<close>

definition payload_tool_choice :: "AnthropicToolChoice option \<Rightarrow> openai_tool_choice option" where
  "payload_tool_choice requested =
     (case convertAnthropicToolChoiceToOpenAI requested of
        None \<Rightarrow> None
      | Some openaiToolChoice \<Rightarrow> Some openaiToolChoice)"

section \<open>Messages of the destination protocol\<close>

record ContentPart =
  part_type :: string
  part_text :: "string option"
  part_image_url :: "string option"

text \<open>\<^verbatim>\<open>content: string | Array<ContentPart> | null\<close>.\<close>

datatype message_content =
    StringContent string
  | PartsContent "ContentPart list"
  | NullContent

text \<open>\<^verbatim>\<open>ToolCall\<close>: \<^verbatim>\<open>{id, type, function: {name, arguments}}\<close>.\<close>

record ToolCall =
  call_id :: string
  call_type :: string
  call_name :: string
  call_arguments :: string

record Message =
  msg_role :: string
  msg_content :: message_content
  msg_tool_calls :: "ToolCall list option"
  msg_tool_call_id :: "string option"
  msg_name :: "string option"

record ChoiceNonStreaming =
  choice_message :: Message
  choice_finish_reason :: string

record ChatCompletionResponse =
  response_id :: string
  response_choices :: "ChoiceNonStreaming list"

section \<open>Response translation\<close>

datatype content_block =
    TextBlock message_content
  | ToolUseBlock string string json

record AnthropicMessagesResponse =
  anthropic_id :: string
  anthropic_model :: string
  anthropic_content :: "content_block list"
  anthropic_stop_reason :: stop_value
  usage_input_tokens :: nat
  usage_output_tokens :: nat

text \<open>\<^verbatim>\<open>if (message.content)\<close>: a non-empty string or an array.\<close>

definition content_truthy :: "message_content \<Rightarrow> bool" where
  "content_truthy c =
     (case c of StringContent s \<Rightarrow> s \<noteq> [] | PartsContent _ \<Rightarrow> True | NullContent \<Rightarrow> False)"

text \<open>\<^verbatim>\<open>typeof parsedInput === "object" && parsedInput !== null\<close>.\<close>

definition is_object :: "json \<Rightarrow> bool" where
  "is_object v = (case v of JObj _ \<Rightarrow> True | JArr _ \<Rightarrow> True | _ \<Rightarrow> False)"

text \<open>
  The body of the \<^verbatim>\<open>try\<close>/\<^verbatim>\<open>catch\<close> around \<^verbatim>\<open>JSON.parse\<close>. The parser is the
  runtime's: \<open>json_parse\<close> gives \<open>None\<close> where \<^verbatim>\<open>JSON.parse\<close> throws.
\<close>

definition toolInputDict :: "(string \<Rightarrow> json option) \<Rightarrow> string \<Rightarrow> json" where
  "toolInputDict json_parse arguments =
     (case json_parse arguments of
        Some parsedInput \<Rightarrow>
          (if is_object parsedInput then parsedInput
           else JObj [(''value'', parsedInput)])
      | None \<Rightarrow> JObj [(''error_parsing_arguments'', JStr arguments)])"

text \<open>The loop over \<^verbatim>\<open>message.tool_calls\<close>: only calls of type \<open>function\<close> are kept.\<close>

fun tool_use_blocks :: "(string \<Rightarrow> json option) \<Rightarrow> ToolCall list \<Rightarrow> content_block list" where
  "tool_use_blocks json_parse [] = []"
| "tool_use_blocks json_parse (call # calls) =
     (if call_type call = ''function''
      then ToolUseBlock (call_id call) (call_name call)
             (toolInputDict json_parse (call_arguments call))
           # tool_use_blocks json_parse calls
      else tool_use_blocks json_parse calls)"

text \<open>The content blocks pushed before the check for an empty array.\<close>

definition produced_blocks ::
    "(string \<Rightarrow> json option) \<Rightarrow> ChatCompletionResponse \<Rightarrow> content_block list" where
  "produced_blocks json_parse openaiResponse =
     (case response_choices openaiResponse of
        [] \<Rightarrow> []
      | choice # _ \<Rightarrow>
          (let message = choice_message choice in
           (if content_truthy (msg_content message)
            then [TextBlock (msg_content message)] else [])
           @ (case msg_tool_calls message of
                None \<Rightarrow> []
              | Some calls \<Rightarrow> tool_use_blocks json_parse calls)))"

definition response_stop_reason :: "ChatCompletionResponse \<Rightarrow> stop_value" where
  "response_stop_reason openaiResponse =
     (case response_choices openaiResponse of
        [] \<Rightarrow> StopReason ''end_turn''
      | choice # _ \<Rightarrow>
          (if msg_tool_calls (choice_message choice) \<noteq> None
              \<and> choice_finish_reason choice = ''tool_calls''
           then StopReason ''tool_use''
           else lookupStopReason (choice_finish_reason choice)))"

text \<open>
  \<^verbatim>\<open>convertOpenAIToAnthropicResponse\<close>. \<open>uuid\<close> is what \<^verbatim>\<open>randomUUID()\<close> returns
  when the request id is absent or empty.
\<close>

definition convertOpenAIToAnthropicResponse ::
    "(string \<Rightarrow> json option) \<Rightarrow> string \<Rightarrow> ChatCompletionResponse \<Rightarrow> string
       \<Rightarrow> string option \<Rightarrow> AnthropicMessagesResponse" where
  "convertOpenAIToAnthropicResponse json_parse uuid openaiResponse originalAnthropicModel requestId =
     (let anthropicContent = produced_blocks json_parse openaiResponse in
      \<lparr> anthropic_id =
          (if response_id openaiResponse \<noteq> [] then ''msg_'' @ response_id openaiResponse
           else ''msg_'' @ or_else requestId uuid @ ''_completed''),
        anthropic_model = originalAnthropicModel,
        anthropic_content =
          (if length anthropicContent = 0 then [TextBlock (StringContent [])]
           else anthropicContent),
        anthropic_stop_reason = response_stop_reason openaiResponse,
        usage_input_tokens = 0,
        usage_output_tokens = 0 \<rparr>)"

section \<open>The token estimator\<close>

record ChatMessage =
  chat_role :: string
  chat_content :: string

text \<open>The estimator's result \<^verbatim>\<open>{input, output}\<close>.\<close>

record TokenCount =
  count_input :: nat
  count_output :: nat

text \<open>\<^verbatim>\<open>Array.prototype.join\<close>.\<close>

fun join :: "string \<Rightarrow> string list \<Rightarrow> string" where
  "join sep [] = []"
| "join sep [x] = x"
| "join sep (x # y # ys) = x @ sep @ join sep (y # ys)"

text \<open>The code units \<^verbatim>\<open>String.prototype.trim\<close> removes, among those below 256.\<close>

definition is_whitespace :: "char \<Rightarrow> bool" where
  "is_whitespace c = ((of_char c :: nat) \<in> {9, 10, 11, 12, 13, 32, 160})"

definition trim_truthy :: "string \<Rightarrow> bool" where
  "trim_truthy s = (\<exists>c \<in> set s. \<not> is_whitespace c)"

definition convertToTokenizerFormat :: "Message \<Rightarrow> ChatMessage option" where
  "convertToTokenizerFormat message =
     (let role = (if msg_role message = ''tool'' then ''assistant'' else msg_role message) in
      case msg_content message of
        StringContent s \<Rightarrow> Some \<lparr> chat_role = role, chat_content = s \<rparr>
      | NullContent \<Rightarrow>
          (case msg_tool_calls message of
             Some (call # calls) \<Rightarrow>
               Some \<lparr> chat_role = role,
                      chat_content =
                        join '' ''
                          (map (\<lambda>toolCall. ''Function call: '' @ call_name toolCall
                                   @ ''('' @ call_arguments toolCall @ '')'')
                             (call # calls)) \<rparr>
           | _ \<Rightarrow>
               (if msg_role message = ''tool'' \<and> truthy (msg_name message)
                then Some \<lparr> chat_role = ''assistant'',
                            chat_content = ''Tool response from '' @ or_else (msg_name message) [] \<rparr>
                else None))
      | PartsContent parts \<Rightarrow>
          (let textContent =
                 join '' ''
                   (filter (\<lambda>t. t \<noteq> [])
                      (map (\<lambda>part. if part_type part = ''input_text'' \<and> truthy (part_text part)
                                    then or_else (part_text part) [] else [])
                         parts))
           in if trim_truthy textContent
              then Some \<lparr> chat_role = role, chat_content = textContent \<rparr>
              else None))"

text \<open>
  \<^verbatim>\<open>getTokenCount\<close>. \<open>countTokens\<close> is the tokenizer library's function
  (\<^verbatim>\<open>gpt-tokenizer\<close>), a parameter here.
\<close>

definition getTokenCount :: "(ChatMessage list \<Rightarrow> nat) \<Rightarrow> Message list \<Rightarrow> TokenCount" where
  "getTokenCount countTokens messages =
     (let convertedMessages = List.map_filter convertToTokenizerFormat messages;
          inputMessages = filter (\<lambda>m. chat_role m \<noteq> ''assistant'') convertedMessages;
          outputMessages = filter (\<lambda>m. chat_role m = ''assistant'') convertedMessages
      in \<lparr> count_input = countTokens inputMessages,
           count_output = countTokens outputMessages \<rparr>)"

text \<open>The object \<^verbatim>\<open>{input, output}\<close> as the value a caller receives.\<close>

definition token_count_value :: "TokenCount \<Rightarrow> json" where
  "token_count_value t =
     JObj [(''input'', JNum (real (count_input t))),
           (''output'', JNum (real (count_output t)))]"

section \<open>The streaming transcoder\<close>

subsection \<open>Chunks of the destination protocol\<close>

text \<open>\<^verbatim>\<open>DeltaToolCall\<close>: \<^verbatim>\<open>{index, id?, function?: {name?, arguments?}}\<close>.\<close>

record DeltaFunction =
  fn_name :: "string option"
  fn_arguments :: "string option"

record DeltaToolCall =
  td_index :: nat
  td_id :: "string option"
  td_function :: "DeltaFunction option"

text \<open>
  The first choice of a chunk: \<^verbatim>\<open>choices[0].delta\<close> (\<^verbatim>\<open>content?\<close>,
  \<^verbatim>\<open>tool_calls?\<close>) and \<^verbatim>\<open>choices[0].finish_reason\<close>.
\<close>

record Choice =
  delta_content :: "string option"
  delta_tool_calls :: "DeltaToolCall list option"
  finish_reason :: "string option"

text \<open>
  A value thrown inside the generator's \<^verbatim>\<open>try\<close>: an \<^verbatim>\<open>Error\<close> with its message, or
  any other value.
\<close>

datatype thrown = ErrorObject string | OtherValue

text \<open>
  One step of \<^verbatim>\<open>for await (const chunk of openaiStream)\<close>, after the envelope is
  read: a chunk whose text does not parse (skipped with a warning), a chunk with no
  choices (skipped), a chunk with a first choice, or a value thrown before the chunk
  yields anything (the upstream iterator rejecting, or a chunk that is not an object).
\<close>

datatype stream_item =
    Unparseable
  | NoChoices
  | Parsed Choice
  | Raises thrown

subsection \<open>Events of the source protocol\<close>

datatype block_delta = TextDelta string | InputJsonDelta string

datatype event =
    MessageStart string string "content_block list" json nat
  | Ping
  | ContentBlockStart nat content_block
  | ContentBlockDelta nat block_delta
  | ContentBlockStop nat
  | MessageDelta stop_value nat
  | MessageStop
  | ErrorEvent string

text \<open>The name on the \<^verbatim>\<open>event:\<close> line of the frame.\<close>

fun event_name :: "event \<Rightarrow> string" where
  "event_name (MessageStart _ _ _ _ _) = ''message_start''"
| "event_name Ping = ''ping''"
| "event_name (ContentBlockStart _ _) = ''content_block_start''"
| "event_name (ContentBlockDelta _ _) = ''content_block_delta''"
| "event_name (ContentBlockStop _) = ''content_block_stop''"
| "event_name (MessageDelta _ _) = ''message_delta''"
| "event_name MessageStop = ''message_stop''"
| "event_name (ErrorEvent _) = ''error''"

subsection \<open>The generator's state\<close>

record ToolState =
  tool_id :: string
  tool_name :: string
  argumentsBuffer :: string

text \<open>
  \<^verbatim>\<open>sentToolBlockStarts\<close> is a \<^verbatim>\<open>Set\<close>, iterated in insertion order: a list to
  which an index is appended only when it is not yet a member.
\<close>

record stream_state =
  nextAnthropicBlockIdx :: nat
  textBlockAnthropicIdx :: "nat option"
  openaiToolIdxToAnthropicBlockIdx :: "nat \<rightharpoonup> nat"
  toolStates :: "nat \<rightharpoonup> ToolState"
  sentToolBlockStarts :: "nat list"
  outputTokenCount :: nat
  finalAnthropicStopReason :: stop_value

definition initial_state :: stream_state where
  "initial_state =
     \<lparr> nextAnthropicBlockIdx = 0,
       textBlockAnthropicIdx = None,
       openaiToolIdxToAnthropicBlockIdx = Map.empty,
       toolStates = Map.empty,
       sentToolBlockStarts = [],
       outputTokenCount = 0,
       finalAnthropicStopReason = StopReason ''end_turn'' \<rparr>"

text \<open>\<^verbatim>\<open>Math.ceil(text.length / 4)\<close>.\<close>

definition estimateTokenCount :: "string \<Rightarrow> nat" where
  "estimateTokenCount text = (length text + 3) div 4"

text \<open>What reading a property of \<^verbatim>\<open>undefined\<close> throws.\<close>

definition undefined_property_error :: thrown where
  "undefined_property_error = ErrorObject ''undefined is not an object''"

subsection \<open>One chunk\<close>

text \<open>\<^verbatim>\<open>if (delta.content) { ... }\<close>.\<close>

definition handle_text :: "stream_state \<Rightarrow> string option \<Rightarrow> stream_state \<times> event list" where
  "handle_text st content =
     (case content of
        None \<Rightarrow> (st, [])
      | Some text \<Rightarrow>
          (if text = [] then (st, [])
           else
             (let st1 = st\<lparr> outputTokenCount := outputTokenCount st + estimateTokenCount text \<rparr>
              in case textBlockAnthropicIdx st1 of
                   None \<Rightarrow>
                     (let idx = nextAnthropicBlockIdx st1 in
                      (st1\<lparr> textBlockAnthropicIdx := Some idx,
                            nextAnthropicBlockIdx := idx + 1 \<rparr>,
                       [ContentBlockStart idx (TextBlock (StringContent [])),
                        ContentBlockDelta idx (TextDelta text)]))
                 | Some idx \<Rightarrow> (st1, [ContentBlockDelta idx (TextDelta text)]))))"

text \<open>First sight of a source tool index: a new block index and a fresh tool state.\<close>

definition allocate_tool_block :: "string \<Rightarrow> stream_state \<Rightarrow> DeltaToolCall \<Rightarrow> stream_state" where
  "allocate_tool_block requestId st toolDelta =
     (if openaiToolIdxToAnthropicBlockIdx st (td_index toolDelta) = None
      then
        (let currentAnthropicToolBlockIdx = nextAnthropicBlockIdx st in
         st\<lparr> nextAnthropicBlockIdx := currentAnthropicToolBlockIdx + 1,
             openaiToolIdxToAnthropicBlockIdx :=
               (openaiToolIdxToAnthropicBlockIdx st)
                 (td_index toolDelta \<mapsto> currentAnthropicToolBlockIdx),
             toolStates :=
               (toolStates st)
                 (currentAnthropicToolBlockIdx \<mapsto>
                    \<lparr> tool_id =
                        or_else (td_id toolDelta)
                          (''tool_ph_'' @ requestId @ ''_''
                             @ string_of_nat currentAnthropicToolBlockIdx),
                      tool_name = [],
                      argumentsBuffer = [] \<rparr>) \<rparr>)
      else st)"

text \<open>The updates of the tool state from one delta: id, name, arguments.\<close>

definition update_tool_state :: "ToolState \<Rightarrow> DeltaToolCall \<Rightarrow> ToolState" where
  "update_tool_state toolState toolDelta =
     (let ts1 =
            (if truthy (td_id toolDelta) \<and> startsWith (tool_id toolState) ''tool_ph_''
             then toolState\<lparr> tool_id := or_else (td_id toolDelta) [] \<rparr>
             else toolState)
      in case td_function toolDelta of
           None \<Rightarrow> ts1
         | Some f \<Rightarrow>
             (let ts2 =
                    (if truthy (fn_name f) then ts1\<lparr> tool_name := or_else (fn_name f) [] \<rparr>
                     else ts1)
              in if truthy (fn_arguments f)
                 then ts2\<lparr> argumentsBuffer := argumentsBuffer ts2 @ or_else (fn_arguments f) [] \<rparr>
                 else ts2))"

text \<open>\<^verbatim>\<open>toolDelta.function?.arguments\<close>, when truthy.\<close>

definition delta_arguments :: "DeltaToolCall \<Rightarrow> string option" where
  "delta_arguments toolDelta =
     (case td_function toolDelta of
        None \<Rightarrow> None
      | Some f \<Rightarrow> (if truthy (fn_arguments f) then fn_arguments f else None))"

text \<open>
  The body of \<^verbatim>\<open>for (const toolDelta of delta.tool_calls)\<close> once the block index and
  its tool state are looked up: the state updates, the \<open>content_block_start\<close> when the
  block can be opened and was not yet, and the \<open>content_block_delta\<close> when the delta has
  arguments and the block's start has been sent.
\<close>

definition apply_tool_delta ::
    "stream_state \<Rightarrow> nat \<Rightarrow> ToolState \<Rightarrow> DeltaToolCall \<Rightarrow> event list \<times> stream_state" where
  "apply_tool_delta st1 currentAnthropicToolBlockIdx toolState0 toolDelta =
     (let toolState = update_tool_state toolState0 toolDelta;
          st2 = st1\<lparr> toolStates :=
                       (toolStates st1)(currentAnthropicToolBlockIdx \<mapsto> toolState),
                     outputTokenCount :=
                       outputTokenCount st1
                         + (case delta_arguments toolDelta of
                              None \<Rightarrow> 0
                            | Some a \<Rightarrow> estimateTokenCount a) \<rparr>;
          openable =
            (currentAnthropicToolBlockIdx \<notin> set (sentToolBlockStarts st2)
             \<and> tool_id toolState \<noteq> []
             \<and> \<not> startsWith (tool_id toolState) ''tool_ph_''
             \<and> tool_name toolState \<noteq> []);
          startEvents =
            (if openable
             then [ContentBlockStart currentAnthropicToolBlockIdx
                     (ToolUseBlock (tool_id toolState) (tool_name toolState) (JObj []))]
             else []);
          st3 =
            (if openable
             then st2\<lparr> sentToolBlockStarts :=
                          sentToolBlockStarts st2 @ [currentAnthropicToolBlockIdx] \<rparr>
             else st2);
          deltaEvents =
            (case delta_arguments toolDelta of
               None \<Rightarrow> []
             | Some a \<Rightarrow>
                 (if currentAnthropicToolBlockIdx \<in> set (sentToolBlockStarts st3)
                  then [ContentBlockDelta currentAnthropicToolBlockIdx (InputJsonDelta a)]
                  else []))
      in (startEvents @ deltaEvents, st3))"

text \<open>
  One tool-call delta. The result is the events yielded, the value thrown (if any) and
  the state as the body leaves it. The two lookups are written with \<^verbatim>\<open>!\<close> in the
  source; on \<^verbatim>\<open>undefined\<close> the next property read would throw.
\<close>

definition process_tool_delta ::
    "string \<Rightarrow> stream_state \<Rightarrow> DeltaToolCall
       \<Rightarrow> event list \<times> thrown option \<times> stream_state" where
  "process_tool_delta requestId st toolDelta =
     (let st1 = allocate_tool_block requestId st toolDelta in
      case openaiToolIdxToAnthropicBlockIdx st1 (td_index toolDelta) of
        None \<Rightarrow> ([], Some undefined_property_error, st1)
      | Some currentAnthropicToolBlockIdx \<Rightarrow>
          (case toolStates st1 currentAnthropicToolBlockIdx of
             None \<Rightarrow> ([], Some undefined_property_error, st1)
           | Some toolState0 \<Rightarrow>
               (case apply_tool_delta st1 currentAnthropicToolBlockIdx toolState0 toolDelta of
                  (evs, st3) \<Rightarrow> (evs, None, st3))))"

fun handle_tool_calls ::
    "string \<Rightarrow> stream_state \<Rightarrow> DeltaToolCall list
       \<Rightarrow> event list \<times> thrown option \<times> stream_state" where
  "handle_tool_calls requestId st [] = ([], None, st)"
| "handle_tool_calls requestId st (toolDelta # rest) =
     (case process_tool_delta requestId st toolDelta of
        (evs, Some e, st1) \<Rightarrow> (evs, Some e, st1)
      | (evs, None, st1) \<Rightarrow>
          (case handle_tool_calls requestId st1 rest of
             (evs2, r) \<Rightarrow> (evs @ evs2, r)))"

text \<open>
  \<^verbatim>\<open>if (openaiFinishReason) { ...; break }\<close>: the new state when the chunk carries a
  finish reason, \<open>None\<close> when the loop goes on.
\<close>

definition handle_finish :: "stream_state \<Rightarrow> string option \<Rightarrow> stream_state option" where
  "handle_finish st openaiFinishReason =
     (case openaiFinishReason of
        None \<Rightarrow> None
      | Some reason \<Rightarrow>
          (if reason = [] then None
           else Some (st\<lparr> finalAnthropicStopReason :=
                            (if reason = ''tool_calls'' then StopReason ''tool_use''
                             else lookupStopReason reason) \<rparr>)))"

text \<open>How one pass of the loop body ends.\<close>

datatype control = Continue | Break | Throw thrown

text \<open>One pass of the loop body for a parsed chunk.\<close>

definition process_chunk ::
    "string \<Rightarrow> stream_state \<Rightarrow> Choice \<Rightarrow> event list \<times> control \<times> stream_state" where
  "process_chunk requestId st c =
     (case handle_text st (delta_content c) of
        (st1, textEvents) \<Rightarrow>
          (case handle_tool_calls requestId st1
                  (case delta_tool_calls c of None \<Rightarrow> [] | Some tds \<Rightarrow> tds) of
             (toolEvents, Some e, st2) \<Rightarrow> (textEvents @ toolEvents, Throw e, st2)
           | (toolEvents, None, st2) \<Rightarrow>
               (case handle_finish st2 (finish_reason c) of
                  None \<Rightarrow> (textEvents @ toolEvents, Continue, st2)
                | Some st3 \<Rightarrow> (textEvents @ toolEvents, Break, st3))))"

subsection \<open>The loop and the generator\<close>

text \<open>
  The \<^verbatim>\<open>for await\<close> loop: the events yielded, the value thrown (if any), and the state
  when the loop is left.
\<close>

fun consume ::
    "string \<Rightarrow> stream_state \<Rightarrow> stream_item list
       \<Rightarrow> event list \<times> thrown option \<times> stream_state" where
  "consume requestId st [] = ([], None, st)"
| "consume requestId st (Unparseable # rest) = consume requestId st rest"
| "consume requestId st (NoChoices # rest) = consume requestId st rest"
| "consume requestId st (Raises e # rest) = ([], Some e, st)"
| "consume requestId st (Parsed c # rest) =
     (case process_chunk requestId st c of
        (evs, Throw e, st1) \<Rightarrow> (evs, Some e, st1)
      | (evs, Break, st1) \<Rightarrow> (evs, None, st1)
      | (evs, Continue, st1) \<Rightarrow>
          (case consume requestId st1 rest of
             (evs2, r) \<Rightarrow> (evs @ evs2, r)))"

text \<open>The events after the loop: the block stops, \<open>message_delta\<close>, \<open>message_stop\<close>.\<close>

definition block_stops :: "stream_state \<Rightarrow> event list" where
  "block_stops st =
     (case textBlockAnthropicIdx st of None \<Rightarrow> [] | Some idx \<Rightarrow> [ContentBlockStop idx])
     @ map ContentBlockStop (sentToolBlockStarts st)"

definition closing_events :: "stream_state \<Rightarrow> event list" where
  "closing_events st =
     block_stops st
     @ [MessageDelta (finalAnthropicStopReason st) (outputTokenCount st), MessageStop]"

text \<open>The \<^verbatim>\<open>catch\<close> block's message.\<close>

definition error_message :: "thrown \<Rightarrow> string" where
  "error_message e =
     (case e of ErrorObject m \<Rightarrow> m | OtherValue \<Rightarrow> ''An unexpected error occurred'')"

text \<open>
  \<^verbatim>\<open>convertOpenAIStreamToAnthropic\<close>: the events the generator yields, in order.
  \<open>uuid\<close> is what \<^verbatim>\<open>randomUUID()\<close> returns.
\<close>

definition convertOpenAIStreamToAnthropic ::
    "string \<Rightarrow> stream_item list \<Rightarrow> string \<Rightarrow> json \<Rightarrow> string \<Rightarrow> event list" where
  "convertOpenAIStreamToAnthropic uuid openaiStream originalAnthropicModel
       estimatedInputTokens requestId =
     [MessageStart (''msg_stream_'' @ requestId @ ''_'' @ take 8 uuid)
        originalAnthropicModel [] estimatedInputTokens 0,
      Ping]
     @ (case consume requestId initial_state openaiStream of
          (evs, None, st) \<Rightarrow> evs @ closing_events st
        | (evs, Some e, st) \<Rightarrow> evs @ [ErrorEvent (error_message e)])"

text \<open>
  The streaming branch of \<^verbatim>\<open>handleAnthropicMessages\<close>:
  \<^verbatim>\<open>const estimatedInputTokens = getTokenCount(openaiMessages)\<close>, handed to the
  generator as its third argument.
\<close>

definition handleAnthropicMessages_stream ::
    "(ChatMessage list \<Rightarrow> nat) \<Rightarrow> string \<Rightarrow> Message list \<Rightarrow> stream_item list
       \<Rightarrow> string \<Rightarrow> string \<Rightarrow> event list" where
  "handleAnthropicMessages_stream countTokens uuid openaiMessages response model requestId =
     (let estimatedInputTokens = token_count_value (getTokenCount countTokens openaiMessages)
      in convertOpenAIStreamToAnthropic uuid response model estimatedInputTokens requestId)"

section \<open>Vocabulary for the properties\<close>

text \<open>A JSON value that is neither an object nor an array.\<close>

definition is_scalar :: "json \<Rightarrow> bool" where
  "is_scalar v =
     (case v of JNull \<Rightarrow> True | JBool _ \<Rightarrow> True | JNum _ \<Rightarrow> True | JStr _ \<Rightarrow> True
      | JArr _ \<Rightarrow> False | JObj _ \<Rightarrow> False)"

text \<open>The block indices of the \<open>content_block_start\<close> events, in the order emitted.\<close>

fun start_indices :: "event list \<Rightarrow> nat list" where
  "start_indices [] = []"
| "start_indices (ContentBlockStart i b # es) = i # start_indices es"
| "start_indices (e # es) = start_indices es"

text \<open>The block indices of the \<open>content_block_stop\<close> events, in the order emitted.\<close>

fun stop_indices :: "event list \<Rightarrow> nat list" where
  "stop_indices [] = []"
| "stop_indices (ContentBlockStop i # es) = i # stop_indices es"
| "stop_indices (e # es) = stop_indices es"

text \<open>The block indices of all block events (start, delta, stop).\<close>

fun block_indices :: "event list \<Rightarrow> nat list" where
  "block_indices [] = []"
| "block_indices (ContentBlockStart i b # es) = i # block_indices es"
| "block_indices (ContentBlockDelta i d # es) = i # block_indices es"
| "block_indices (ContentBlockStop i # es) = i # block_indices es"
| "block_indices (e # es) = block_indices es"

text \<open>The \<open>partial_json\<close> payloads of the \<open>input_json_delta\<close> events of block \<open>i\<close>.\<close>

fun json_payloads :: "nat \<Rightarrow> event list \<Rightarrow> string list" where
  "json_payloads i [] = []"
| "json_payloads i (ContentBlockDelta j (InputJsonDelta a) # es) =
     (if j = i then a # json_payloads i es else json_payloads i es)"
| "json_payloads i (e # es) = json_payloads i es"

text \<open>
  The chunks the loop reads: it skips what it cannot use, stops at a thrown value, and
  stops after the first chunk with a finish reason.
\<close>

fun consumed :: "stream_item list \<Rightarrow> Choice list" where
  "consumed [] = []"
| "consumed (Unparseable # rest) = consumed rest"
| "consumed (NoChoices # rest) = consumed rest"
| "consumed (Raises e # rest) = []"
| "consumed (Parsed c # rest) =
     c # (if truthy (finish_reason c) then [] else consumed rest)"

definition tool_deltas_of :: "Choice \<Rightarrow> DeltaToolCall list" where
  "tool_deltas_of c = (case delta_tool_calls c of None \<Rightarrow> [] | Some tds \<Rightarrow> tds)"

text \<open>The tool-call deltas of source index \<open>k\<close> that the loop reads, in arrival order.\<close>

definition consumed_tool_deltas :: "nat \<Rightarrow> stream_item list \<Rightarrow> DeltaToolCall list" where
  "consumed_tool_deltas k items =
     filter (\<lambda>td. td_index td = k) (concat (map tool_deltas_of (consumed items)))"

text \<open>A delta that carries an id which is not a placeholder.\<close>

definition has_concrete_id :: "DeltaToolCall \<Rightarrow> bool" where
  "has_concrete_id td =
     (truthy (td_id td) \<and> \<not> startsWith (or_else (td_id td) []) ''tool_ph_'')"

text \<open>A delta that carries a non-empty name.\<close>

definition has_name :: "DeltaToolCall \<Rightarrow> bool" where
  "has_name td = (case td_function td of None \<Rightarrow> False | Some f \<Rightarrow> truthy (fn_name f))"

text \<open>The block indices handed out so far, and those whose start has been sent.\<close>

definition allocated :: "stream_state \<Rightarrow> nat set" where
  "allocated st =
     set_option (textBlockAnthropicIdx st) \<union> ran (openaiToolIdxToAnthropicBlockIdx st)"

definition opened :: "stream_state \<Rightarrow> nat set" where
  "opened st = set_option (textBlockAnthropicIdx st) \<union> set (sentToolBlockStarts st)"

text \<open>
  What holds of the state between any two steps of the loop: the indices handed out
  are exactly those below the counter, no index belongs to two blocks, every tool
  block has a tool state, and a tool block whose start was sent has a concrete id and
  a name.
\<close>

definition state_ok :: "stream_state \<Rightarrow> bool" where
  "state_ok st \<longleftrightarrow>
     allocated st = {..<nextAnthropicBlockIdx st} \<and>
     inj_on (openaiToolIdxToAnthropicBlockIdx st) (dom (openaiToolIdxToAnthropicBlockIdx st)) \<and>
     set_option (textBlockAnthropicIdx st) \<inter> ran (openaiToolIdxToAnthropicBlockIdx st) = {} \<and>
     ran (openaiToolIdxToAnthropicBlockIdx st) \<subseteq> dom (toolStates st) \<and>
     set (sentToolBlockStarts st) \<subseteq> ran (openaiToolIdxToAnthropicBlockIdx st) \<and>
     distinct (sentToolBlockStarts st) \<and>
     (\<forall>i \<in> set (sentToolBlockStarts st). \<forall>ts. toolStates st i = Some ts \<longrightarrow>
        \<not> startsWith (tool_id ts) ''tool_ph_'' \<and> tool_name ts \<noteq> [])"

text \<open>
  The later state keeps every index the earlier one handed out, and every block it
  adds has an index at or above the earlier counter.
\<close>

definition allocation_extends :: "stream_state \<Rightarrow> stream_state \<Rightarrow> bool" where
  "allocation_extends st st' \<longleftrightarrow>
     nextAnthropicBlockIdx st \<le> nextAnthropicBlockIdx st' \<and>
     (\<forall>k i. openaiToolIdxToAnthropicBlockIdx st k = Some i \<longrightarrow>
        openaiToolIdxToAnthropicBlockIdx st' k = Some i) \<and>
     (\<forall>t. textBlockAnthropicIdx st = Some t \<longrightarrow> textBlockAnthropicIdx st' = Some t) \<and>
     (\<forall>k i. openaiToolIdxToAnthropicBlockIdx st k = None \<longrightarrow>
        openaiToolIdxToAnthropicBlockIdx st' k = Some i \<longrightarrow> nextAnthropicBlockIdx st \<le> i) \<and>
     (\<forall>t. textBlockAnthropicIdx st = None \<longrightarrow>
        textBlockAnthropicIdx st' = Some t \<longrightarrow> nextAnthropicBlockIdx st \<le> t)"

text \<open>
  What one stretch of the loop does to a state that is \<open>state_ok\<close>: the events it
  yields are block starts and deltas of opened blocks, it starts no block twice, and
  the state it leaves is \<open>state_ok\<close> and extends the allocation.
\<close>

definition step_ok :: "stream_state \<Rightarrow> event list \<Rightarrow> stream_state \<Rightarrow> bool" where
  "step_ok st evs st' \<longleftrightarrow>
     (state_ok st \<longrightarrow>
        state_ok st' \<and>
        allocation_extends st st' \<and>
        stop_indices evs = [] \<and>
        distinct (start_indices evs) \<and>
        set (start_indices evs) \<inter> opened st = {} \<and>
        opened st' = opened st \<union> set (start_indices evs) \<and>
        set (block_indices evs) \<subseteq> opened st')"

text \<open>The test \<^verbatim>\<open>convertOpenAIStreamToAnthropic\<close> makes before it sends a tool block's start.\<close>

definition can_open :: "stream_state \<Rightarrow> nat \<Rightarrow> ToolState \<Rightarrow> bool" where
  "can_open st cur ts \<longleftrightarrow>
     cur \<notin> set (sentToolBlockStarts st) \<and> tool_id ts \<noteq> []
     \<and> \<not> startsWith (tool_id ts) ''tool_ph_'' \<and> tool_name ts \<noteq> []"

text \<open>A chunk with a finish reason; the upstream iterator throwing.\<close>

definition carries_finish_reason :: "stream_item \<Rightarrow> bool" where
  "carries_finish_reason x =
     (case x of Parsed c \<Rightarrow> truthy (finish_reason c) | _ \<Rightarrow> False)"

definition is_raise :: "stream_item \<Rightarrow> bool" where
  "is_raise x = (case x of Raises _ \<Rightarrow> True | _ \<Rightarrow> False)"

text \<open>The estimate one chunk adds to \<^verbatim>\<open>outputTokenCount\<close>.\<close>

definition chunk_tokens :: "Choice \<Rightarrow> nat" where
  "chunk_tokens c =
     (case delta_content c of None \<Rightarrow> 0 | Some t \<Rightarrow> estimateTokenCount t)
     + sum_list (map (\<lambda>td. case delta_arguments td of
                               None \<Rightarrow> 0 | Some a \<Rightarrow> estimateTokenCount a)
                   (tool_deltas_of c))"







section \<open>Properties of the stop-reason table\<close>

lemma lookupStopReason_cases:
  "lookupStopReason x = StopReason r \<Longrightarrow>
     r = ''end_turn'' \<or> r = ''max_tokens'' \<or> r = ''tool_use'' \<or> r = ''stop_sequence''"
  unfolding lookupStopReason_def openaiToAnthropicStopReasonMap_def
  by (simp split: if_splits)

text \<open>
  C4, as stated, fails: the table sends \<open>length\<close> to \<open>max_tokens\<close>, and \<open>max_tokens\<close>
  is not a key of the table, so a second application gives \<open>end_turn\<close>.
\<close>

theorem stop_reason_not_idempotent:
  "lookupStopReason ''length'' = StopReason ''max_tokens'' \<and>
   lookupStopReason ''max_tokens'' = StopReason ''end_turn'' \<and>
   lookupStopReason ''max_tokens'' \<noteq> lookupStopReason ''length''"
  by (simp add: lookupStopReason_def openaiToAnthropicStopReasonMap_def
      object_prototype_keys_def)

text \<open>
  C4, amended: whenever the table lookup returns a stop reason \<open>r\<close>, looking \<open>r\<close> up
  again returns \<open>end_turn\<close>; so the second application agrees with the first exactly
  when the first result is \<open>end_turn\<close>, and it changes the result for \<open>length\<close>,
  \<open>tool_calls\<close>, \<open>function_call\<close> and \<open>content_filter\<close>.
\<close>

theorem stop_reason_twice:
  "lookupStopReason x = StopReason r \<Longrightarrow>
     lookupStopReason r = StopReason ''end_turn'' \<and>
     (lookupStopReason r = lookupStopReason x \<longleftrightarrow> r = ''end_turn'')"
proof -
  assume a: "lookupStopReason x = StopReason r"
  have "r = ''end_turn'' \<or> r = ''max_tokens'' \<or> r = ''tool_use'' \<or> r = ''stop_sequence''"
    using a by (rule lookupStopReason_cases)
  then have b: "lookupStopReason r = StopReason ''end_turn''"
    unfolding lookupStopReason_def openaiToAnthropicStopReasonMap_def
      object_prototype_keys_def
    by (elim disjE) simp_all
  have c: "(''end_turn'' = r) = (r = ''end_turn'')"
    by (rule iffI) (erule sym)+
  show ?thesis using a b c by simp
qed

theorem stop_reason_twice_witness:
  "lookupStopReason ''content_filter'' = StopReason ''stop_sequence'' \<and>
   lookupStopReason ''stop_sequence'' = StopReason ''end_turn'' \<and>
   lookupStopReason ''stop_sequence'' \<noteq> lookupStopReason ''content_filter''"
proof -
  have h: "lookupStopReason ''content_filter'' = StopReason ''stop_sequence''"
    by (simp add: lookupStopReason_def openaiToAnthropicStopReasonMap_def)
  show ?thesis using h stop_reason_twice [OF h] by simp
qed

section \<open>Properties of the request and response translators\<close>

text \<open>
  C8, as stated, fails for an absent tool choice: the converter returns \<^verbatim>\<open>undefined\<close>
  and the payload gets no \<^verbatim>\<open>tool_choice\<close> field, not \<open>auto\<close>.
\<close>

theorem tool_choice_absent_not_auto:
  "convertAnthropicToolChoiceToOpenAI None = None \<and>
   payload_tool_choice None \<noteq> Some ChoiceAuto"
  by (simp add: convertAnthropicToolChoiceToOpenAI_def payload_tool_choice_def)

text \<open>
  C8, amended: \<open>auto\<close> and \<open>any\<close> map to \<open>auto\<close>, \<open>tool\<close> with a non-empty name maps to
  the forced-named-tool form, and every other tool choice that is present (another
  type, or \<open>tool\<close> with a missing or empty name) maps to \<open>auto\<close>; the payload carries
  what the converter returns. An absent tool choice maps to \<^verbatim>\<open>undefined\<close> and the
  payload then has no \<^verbatim>\<open>tool_choice\<close> field.
\<close>

theorem tool_choice_translation:
  "convertAnthropicToolChoiceToOpenAI (Some \<lparr> choice_type = ''auto'', choice_name = n \<rparr>)
     = Some ChoiceAuto \<and>
   convertAnthropicToolChoiceToOpenAI (Some \<lparr> choice_type = ''any'', choice_name = n \<rparr>)
     = Some ChoiceAuto \<and>
   convertAnthropicToolChoiceToOpenAI (Some \<lparr> choice_type = ''tool'', choice_name = Some name \<rparr>)
     = Some (if name = [] then ChoiceAuto else ChoiceFunction name) \<and>
   convertAnthropicToolChoiceToOpenAI (Some c)
     = Some (if choice_type c = ''tool'' \<and> truthy (choice_name c)
             then ChoiceFunction (or_else (choice_name c) []) else ChoiceAuto) \<and>
   payload_tool_choice (Some c) = convertAnthropicToolChoiceToOpenAI (Some c) \<and>
   convertAnthropicToolChoiceToOpenAI None = None \<and>
   payload_tool_choice None = None"
  by (simp add: convertAnthropicToolChoiceToOpenAI_def payload_tool_choice_def
      truthy_def or_else_def)

lemma tool_use_blocks_map:
  "tool_use_blocks json_parse calls =
     map (\<lambda>c. ToolUseBlock (call_id c) (call_name c)
                 (toolInputDict json_parse (call_arguments c)))
       (filter (\<lambda>c. call_type c = ''function'') calls)"
  by (induction calls) simp_all

text \<open>
  C9: the content array of the translated response is never empty; when the backend
  message yields no text block and no tool-use block, it is exactly one empty text
  block, and otherwise it is the blocks produced.
\<close>

theorem content_never_empty:
  "anthropic_content
     (convertOpenAIToAnthropicResponse json_parse uuid openaiResponse model requestId) \<noteq> [] \<and>
   anthropic_content
     (convertOpenAIToAnthropicResponse json_parse uuid openaiResponse model requestId)
     = (if produced_blocks json_parse openaiResponse = []
        then [TextBlock (StringContent [])]
        else produced_blocks json_parse openaiResponse)"
  by (simp add: convertOpenAIToAnthropicResponse_def Let_def)

lemma toolInputDict_cases:
  "toolInputDict json_parse arguments =
     (case json_parse arguments of
        None \<Rightarrow> JObj [(''error_parsing_arguments'', JStr arguments)]
      | Some v \<Rightarrow> (if is_scalar v then JObj [(''value'', v)] else v))"
proof (cases "json_parse arguments")
  case None
  then show ?thesis by (simp add: toolInputDict_def)
next
  case (Some v)
  then show ?thesis
    by (cases v) (simp_all add: toolInputDict_def is_object_def is_scalar_def)
qed

text \<open>
  C7: the content of the translated non-streaming response is, for every response, the
  text block (when the first choice's message has content) followed by one tool-use
  block for every tool call of type \<open>function\<close> of that message, in order, each with
  the call's id and name and with this input: the parsed value when the arguments parse
  to an object (or array); \<^verbatim>\<open>{value: v}\<close> when they parse to a scalar \<open>v\<close>;
  \<^verbatim>\<open>{error_parsing_arguments: rawString}\<close> when they do not parse. The translator
  returns a response in every case. In particular, when the runtime's parser rejects
  \<^verbatim>\<open>{bad json\<close>, a response whose only tool call has these arguments translates
  to the single block with input \<^verbatim>\<open>{error_parsing_arguments: "{bad json"}\<close>.
\<close>

theorem tool_arguments_translation:
  "anthropic_content
     (convertOpenAIToAnthropicResponse json_parse uuid openaiResponse model requestId)
     = (let blocks =
              (case response_choices openaiResponse of
                 [] \<Rightarrow> []
               | choice # _ \<Rightarrow>
                   (if content_truthy (msg_content (choice_message choice))
                    then [TextBlock (msg_content (choice_message choice))] else [])
                   @ map (\<lambda>c. ToolUseBlock (call_id c) (call_name c)
                               (case json_parse (call_arguments c) of
                                  None \<Rightarrow>
                                    JObj [(''error_parsing_arguments'', JStr (call_arguments c))]
                                | Some v \<Rightarrow>
                                    (if is_scalar v then JObj [(''value'', v)] else v)))
                       (filter (\<lambda>c. call_type c = ''function'')
                          (case msg_tool_calls (choice_message choice) of
                             None \<Rightarrow> [] | Some calls \<Rightarrow> calls)))
        in if blocks = [] then [TextBlock (StringContent [])] else blocks) \<and>
   (json_parse (call_arguments call) = Some (JObj members) \<longrightarrow>
      toolInputDict json_parse (call_arguments call) = JObj members) \<and>
   (json_parse (call_arguments call) = Some v \<and> is_scalar v \<longrightarrow>
      toolInputDict json_parse (call_arguments call) = JObj [(''value'', v)]) \<and>
   (json_parse (call_arguments call) = None \<longrightarrow>
      toolInputDict json_parse (call_arguments call)
        = JObj [(''error_parsing_arguments'', JStr (call_arguments call))]) \<and>
   tool_use_blocks json_parse calls =
     map (\<lambda>c. ToolUseBlock (call_id c) (call_name c)
                 (toolInputDict json_parse (call_arguments c)))
       (filter (\<lambda>c. call_type c = ''function'') calls) \<and>
   (json_parse ''{bad json'' = None \<longrightarrow>
      anthropic_content
        (convertOpenAIToAnthropicResponse json_parse uuid
           \<lparr> response_id = rid,
             response_choices =
               [\<lparr> choice_message =
                    \<lparr> msg_role = ''assistant'', msg_content = NullContent,
                      msg_tool_calls =
                        Some [\<lparr> call_id = cid, call_type = ''function'', call_name = fname,
                                call_arguments = ''{bad json'' \<rparr>],
                      msg_tool_call_id = None, msg_name = None \<rparr>,
                  choice_finish_reason = ''tool_calls'' \<rparr>] \<rparr>
           model requestId)
      = [ToolUseBlock cid fname (JObj [(''error_parsing_arguments'', JStr ''{bad json'')])])"
proof -
  have a: "json_parse (call_arguments call) = Some (JObj members) \<longrightarrow>
      toolInputDict json_parse (call_arguments call) = JObj members"
    by (simp add: toolInputDict_def is_object_def)
  have b: "json_parse (call_arguments call) = Some v \<and> is_scalar v \<longrightarrow>
      toolInputDict json_parse (call_arguments call) = JObj [(''value'', v)]"
    by (cases v) (simp_all add: toolInputDict_def is_object_def is_scalar_def)
  have c: "json_parse (call_arguments call) = None \<longrightarrow>
      toolInputDict json_parse (call_arguments call)
        = JObj [(''error_parsing_arguments'', JStr (call_arguments call))]"
    by (simp add: toolInputDict_def)
  have d: "json_parse ''{bad json'' = None \<longrightarrow>
      anthropic_content
        (convertOpenAIToAnthropicResponse json_parse uuid
           \<lparr> response_id = rid,
             response_choices =
               [\<lparr> choice_message =
                    \<lparr> msg_role = ''assistant'', msg_content = NullContent,
                      msg_tool_calls =
                        Some [\<lparr> call_id = cid, call_type = ''function'', call_name = fname,
                                call_arguments = ''{bad json'' \<rparr>],
                      msg_tool_call_id = None, msg_name = None \<rparr>,
                  choice_finish_reason = ''tool_calls'' \<rparr>] \<rparr>
           model requestId)
      = [ToolUseBlock cid fname (JObj [(''error_parsing_arguments'', JStr ''{bad json'')])]"
    by (simp add: convertOpenAIToAnthropicResponse_def produced_blocks_def content_truthy_def
        toolInputDict_def Let_def)
  have e: "anthropic_content
     (convertOpenAIToAnthropicResponse json_parse uuid openaiResponse model requestId)
     = (let blocks =
              (case response_choices openaiResponse of
                 [] \<Rightarrow> []
               | choice # _ \<Rightarrow>
                   (if content_truthy (msg_content (choice_message choice))
                    then [TextBlock (msg_content (choice_message choice))] else [])
                   @ map (\<lambda>c. ToolUseBlock (call_id c) (call_name c)
                               (case json_parse (call_arguments c) of
                                  None \<Rightarrow>
                                    JObj [(''error_parsing_arguments'', JStr (call_arguments c))]
                                | Some v \<Rightarrow>
                                    (if is_scalar v then JObj [(''value'', v)] else v)))
                       (filter (\<lambda>c. call_type c = ''function'')
                          (case msg_tool_calls (choice_message choice) of
                             None \<Rightarrow> [] | Some calls \<Rightarrow> calls)))
        in if blocks = [] then [TextBlock (StringContent [])] else blocks)"
  proof (cases "response_choices openaiResponse")
    case Nil
    then show ?thesis
      by (simp add: convertOpenAIToAnthropicResponse_def produced_blocks_def Let_def)
  next
    case (Cons choice others)
    show ?thesis
    proof (cases "msg_tool_calls (choice_message choice)")
      case None
      then show ?thesis
        using Cons
        by (simp add: convertOpenAIToAnthropicResponse_def produced_blocks_def Let_def)
    next
      case (Some calls)
      have m: "tool_use_blocks json_parse calls =
          map (\<lambda>c. ToolUseBlock (call_id c) (call_name c)
                               (case json_parse (call_arguments c) of
                                  None \<Rightarrow>
                                    JObj [(''error_parsing_arguments'', JStr (call_arguments c))]
                                | Some v \<Rightarrow>
                                    (if is_scalar v then JObj [(''value'', v)] else v)))
            (filter (\<lambda>c. call_type c = ''function'') calls)"
        unfolding tool_use_blocks_map toolInputDict_cases ..
      show ?thesis
        using Cons Some
        by (simp add: convertOpenAIToAnthropicResponse_def produced_blocks_def Let_def m)
    qed
  qed
  show ?thesis using a b c d e tool_use_blocks_map by blast
qed

theorem tool_arguments_translation_witness:
  "anthropic_content
     (convertOpenAIToAnthropicResponse [''{}'' \<mapsto> JObj [], ''42'' \<mapsto> JNum 42] ''0123456789abcdef''
        \<lparr> response_id = ''chatcmpl-2'',
          response_choices =
            [\<lparr> choice_message =
                 \<lparr> msg_role = ''assistant'', msg_content = StringContent ''ok'',
                   msg_tool_calls =
                     Some [\<lparr> call_id = ''call_1'', call_type = ''function'',
                             call_name = ''f'', call_arguments = ''{}'' \<rparr>,
                           \<lparr> call_id = ''call_2'', call_type = ''function'',
                             call_name = ''g'', call_arguments = ''42'' \<rparr>,
                           \<lparr> call_id = ''call_3'', call_type = ''function'',
                             call_name = ''h'', call_arguments = ''{bad json'' \<rparr>],
                   msg_tool_call_id = None, msg_name = None \<rparr>,
               choice_finish_reason = ''tool_calls'' \<rparr>] \<rparr>
        ''claude-3'' (Some ''req''))
     = [TextBlock (StringContent ''ok''),
        ToolUseBlock ''call_1'' ''f'' (JObj []),
        ToolUseBlock ''call_2'' ''g'' (JObj [(''value'', JNum 42)]),
        ToolUseBlock ''call_3'' ''h''
          (JObj [(''error_parsing_arguments'', JStr ''{bad json'')])] \<and>
   toolInputDict [''{}'' \<mapsto> JObj [], ''42'' \<mapsto> JNum 42] ''{}'' = JObj [] \<and>
   toolInputDict [''{}'' \<mapsto> JObj [], ''42'' \<mapsto> JNum 42] ''42'' = JObj [(''value'', JNum 42)] \<and>
   toolInputDict [''{}'' \<mapsto> JObj [], ''42'' \<mapsto> JNum 42] ''{bad json''
     = JObj [(''error_parsing_arguments'', JStr ''{bad json'')] \<and>
   anthropic_content
     (convertOpenAIToAnthropicResponse [''{}'' \<mapsto> JObj [], ''42'' \<mapsto> JNum 42] ''0123456789abcdef''
        \<lparr> response_id = ''chatcmpl-1'',
          response_choices =
            [\<lparr> choice_message =
                 \<lparr> msg_role = ''assistant'', msg_content = NullContent,
                   msg_tool_calls =
                     Some [\<lparr> call_id = ''call_1'', call_type = ''function'',
                             call_name = ''get_weather'', call_arguments = ''{bad json'' \<rparr>],
                   msg_tool_call_id = None, msg_name = None \<rparr>,
               choice_finish_reason = ''tool_calls'' \<rparr>] \<rparr>
        ''claude-3'' (Some ''req''))
     = [ToolUseBlock ''call_1'' ''get_weather''
          (JObj [(''error_parsing_arguments'', JStr ''{bad json'')])]"
proof -
  let ?p = "[''{}'' \<mapsto> JObj [], ''42'' \<mapsto> JNum 42] :: string \<Rightarrow> json option"
  have h1: "?p ''{}'' = Some (JObj [])" by simp
  have h2: "?p ''42'' = Some (JNum 42) \<and> is_scalar (JNum 42)" by (simp add: is_scalar_def)
  have h3: "?p ''{bad json'' = None" by simp
  have g0: "anthropic_content
     (convertOpenAIToAnthropicResponse ?p ''0123456789abcdef''
        \<lparr> response_id = ''chatcmpl-2'',
          response_choices =
            [\<lparr> choice_message =
                 \<lparr> msg_role = ''assistant'', msg_content = StringContent ''ok'',
                   msg_tool_calls =
                     Some [\<lparr> call_id = ''call_1'', call_type = ''function'',
                             call_name = ''f'', call_arguments = ''{}'' \<rparr>,
                           \<lparr> call_id = ''call_2'', call_type = ''function'',
                             call_name = ''g'', call_arguments = ''42'' \<rparr>,
                           \<lparr> call_id = ''call_3'', call_type = ''function'',
                             call_name = ''h'', call_arguments = ''{bad json'' \<rparr>],
                   msg_tool_call_id = None, msg_name = None \<rparr>,
               choice_finish_reason = ''tool_calls'' \<rparr>] \<rparr>
        ''claude-3'' (Some ''req''))
     = [TextBlock (StringContent ''ok''),
        ToolUseBlock ''call_1'' ''f'' (JObj []),
        ToolUseBlock ''call_2'' ''g'' (JObj [(''value'', JNum 42)]),
        ToolUseBlock ''call_3'' ''h''
          (JObj [(''error_parsing_arguments'', JStr ''{bad json'')])]"
    using tool_arguments_translation
      [where json_parse = ?p and uuid = "''0123456789abcdef''" and model = "''claude-3''"
         and requestId = "Some ''req''"
         and openaiResponse = "\<lparr> response_id = ''chatcmpl-2'',
          response_choices =
            [\<lparr> choice_message =
                 \<lparr> msg_role = ''assistant'', msg_content = StringContent ''ok'',
                   msg_tool_calls =
                     Some [\<lparr> call_id = ''call_1'', call_type = ''function'',
                             call_name = ''f'', call_arguments = ''{}'' \<rparr>,
                           \<lparr> call_id = ''call_2'', call_type = ''function'',
                             call_name = ''g'', call_arguments = ''42'' \<rparr>,
                           \<lparr> call_id = ''call_3'', call_type = ''function'',
                             call_name = ''h'', call_arguments = ''{bad json'' \<rparr>],
                   msg_tool_call_id = None, msg_name = None \<rparr>,
               choice_finish_reason = ''tool_calls'' \<rparr>] \<rparr>", THEN conjunct1]
    by (simp add: content_truthy_def is_scalar_def)
  have g1: "toolInputDict ?p ''{}'' = JObj []"
    using h1 tool_arguments_translation
      [where json_parse = ?p and members = "[]"
         and call = "\<lparr> call_id = [], call_type = [], call_name = [], call_arguments = ''{}'' \<rparr>"]
    by simp
  have g2: "toolInputDict ?p ''42'' = JObj [(''value'', JNum 42)]"
    using h2 tool_arguments_translation
      [where json_parse = ?p and v = "JNum 42"
         and call = "\<lparr> call_id = [], call_type = [], call_name = [], call_arguments = ''42'' \<rparr>"]
    by simp
  have g3: "toolInputDict ?p ''{bad json'' = JObj [(''error_parsing_arguments'', JStr ''{bad json'')]"
    using h3 tool_arguments_translation
      [where json_parse = ?p
         and call = "\<lparr> call_id = [], call_type = [], call_name = [], call_arguments = ''{bad json'' \<rparr>"]
    by simp
  have g4: "anthropic_content
     (convertOpenAIToAnthropicResponse ?p ''0123456789abcdef''
        \<lparr> response_id = ''chatcmpl-1'',
          response_choices =
            [\<lparr> choice_message =
                 \<lparr> msg_role = ''assistant'', msg_content = NullContent,
                   msg_tool_calls =
                     Some [\<lparr> call_id = ''call_1'', call_type = ''function'',
                             call_name = ''get_weather'', call_arguments = ''{bad json'' \<rparr>],
                   msg_tool_call_id = None, msg_name = None \<rparr>,
               choice_finish_reason = ''tool_calls'' \<rparr>] \<rparr>
        ''claude-3'' (Some ''req''))
     = [ToolUseBlock ''call_1'' ''get_weather''
          (JObj [(''error_parsing_arguments'', JStr ''{bad json'')])]"
    using h3 tool_arguments_translation [where json_parse = ?p]
    by blast
  show ?thesis using g0 g1 g2 g3 g4 by blast
qed

text \<open>
  C6 does not hold of the code: the streaming branch of the handler hands the whole
  record \<^verbatim>\<open>{input, output}\<close> that \<^verbatim>\<open>getTokenCount\<close> returns to the generator, so the
  \<open>usage.input_tokens\<close> of \<open>message_start\<close> is that record and not the number
  \<open>input\<close>.
\<close>

theorem message_start_seeded_with_record:
  "hd (handleAnthropicMessages_stream countTokens uuid openaiMessages response model requestId)
     = MessageStart (''msg_stream_'' @ requestId @ ''_'' @ take 8 uuid) model []
         (JObj [(''input'', JNum (real (count_input (getTokenCount countTokens openaiMessages)))),
                (''output'', JNum (real (count_output (getTokenCount countTokens openaiMessages))))])
         0 \<and>
   JObj [(''input'', JNum (real (count_input (getTokenCount countTokens openaiMessages)))),
         (''output'', JNum (real (count_output (getTokenCount countTokens openaiMessages))))]
     \<noteq> JNum (real (count_input (getTokenCount countTokens openaiMessages)))"
  by (simp add: handleAnthropicMessages_stream_def convertOpenAIStreamToAnthropic_def
      token_count_value_def Let_def)

section \<open>Lemmas about the loop of the transcoder\<close>

subsection \<open>Lists of events\<close>

lemma start_indices_append:
  "start_indices (xs @ ys) = start_indices xs @ start_indices ys"
  by (induction xs rule: start_indices.induct) simp_all

lemma stop_indices_append:
  "stop_indices (xs @ ys) = stop_indices xs @ stop_indices ys"
  by (induction xs rule: stop_indices.induct) simp_all

lemma block_indices_append:
  "block_indices (xs @ ys) = block_indices xs @ block_indices ys"
  by (induction xs rule: block_indices.induct) simp_all

lemma json_payloads_append:
  "json_payloads i (xs @ ys) = json_payloads i xs @ json_payloads i ys"
  by (induction i xs rule: json_payloads.induct) simp_all

lemma state_ok_initial: "state_ok initial_state"
  by (simp add: state_ok_def initial_state_def allocated_def)

lemma opened_subset_allocated:
  "state_ok st \<Longrightarrow> opened st \<subseteq> {..<nextAnthropicBlockIdx st}"
  unfolding state_ok_def opened_def allocated_def by blast

lemma allocation_extends_refl: "allocation_extends st st"
  by (simp add: allocation_extends_def)

lemma allocation_extends_trans:
  assumes "allocation_extends s1 s2" and "allocation_extends s2 s3"
  shows "allocation_extends s1 s3"
  unfolding allocation_extends_def
proof (intro conjI allI impI)
  show "nextAnthropicBlockIdx s1 \<le> nextAnthropicBlockIdx s3"
    using assms by (simp add: allocation_extends_def)
next
  fix k i assume "openaiToolIdxToAnthropicBlockIdx s1 k = Some i"
  then show "openaiToolIdxToAnthropicBlockIdx s3 k = Some i"
    using assms by (simp add: allocation_extends_def)
next
  fix t assume "textBlockAnthropicIdx s1 = Some t"
  then show "textBlockAnthropicIdx s3 = Some t"
    using assms by (simp add: allocation_extends_def)
next
  fix k i
  assume a: "openaiToolIdxToAnthropicBlockIdx s1 k = None"
    and b: "openaiToolIdxToAnthropicBlockIdx s3 k = Some i"
  show "nextAnthropicBlockIdx s1 \<le> i"
  proof (cases "openaiToolIdxToAnthropicBlockIdx s2 k")
    case None
    then have "nextAnthropicBlockIdx s2 \<le> i"
      using assms(2) b by (simp add: allocation_extends_def)
    then show ?thesis using assms(1) by (simp add: allocation_extends_def)
  next
    case (Some j)
    then have "nextAnthropicBlockIdx s1 \<le> j"
      using assms(1) a by (simp add: allocation_extends_def)
    moreover have "openaiToolIdxToAnthropicBlockIdx s3 k = Some j"
      using assms(2) Some by (simp add: allocation_extends_def)
    ultimately show ?thesis using b by simp
  qed
next
  fix t
  assume a: "textBlockAnthropicIdx s1 = None"
    and b: "textBlockAnthropicIdx s3 = Some t"
  show "nextAnthropicBlockIdx s1 \<le> t"
  proof (cases "textBlockAnthropicIdx s2")
    case None
    then have "nextAnthropicBlockIdx s2 \<le> t"
      using assms(2) b by (simp add: allocation_extends_def)
    then show ?thesis using assms(1) by (simp add: allocation_extends_def)
  next
    case (Some j)
    then have "nextAnthropicBlockIdx s1 \<le> j"
      using assms(1) a by (simp add: allocation_extends_def)
    moreover have "textBlockAnthropicIdx s3 = Some j"
      using assms(2) Some by (simp add: allocation_extends_def)
    ultimately show ?thesis using b by simp
  qed
qed

lemma step_okD:
  assumes "step_ok st evs st'" and "state_ok st"
  shows "state_ok st'" and "allocation_extends st st'" and "stop_indices evs = []"
    and "distinct (start_indices evs)" and "set (start_indices evs) \<inter> opened st = {}"
    and "opened st' = opened st \<union> set (start_indices evs)"
    and "set (block_indices evs) \<subseteq> opened st'"
  using assms unfolding step_ok_def by blast+

lemma step_ok_refl: "step_ok st [] st"
  by (simp add: step_ok_def allocation_extends_refl)

lemma step_ok_trans:
  assumes "step_ok s1 e1 s2" and "step_ok s2 e2 s3"
  shows "step_ok s1 (e1 @ e2) s3"
  unfolding step_ok_def
proof (intro impI)
  assume ok1: "state_ok s1"
  have a: "state_ok s2" "allocation_extends s1 s2" "stop_indices e1 = []"
    "distinct (start_indices e1)" "set (start_indices e1) \<inter> opened s1 = {}"
    "opened s2 = opened s1 \<union> set (start_indices e1)"
    "set (block_indices e1) \<subseteq> opened s2"
    using step_okD [OF assms(1) ok1] by blast+
  have b: "state_ok s3" "allocation_extends s2 s3" "stop_indices e2 = []"
    "distinct (start_indices e2)" "set (start_indices e2) \<inter> opened s2 = {}"
    "opened s3 = opened s2 \<union> set (start_indices e2)"
    "set (block_indices e2) \<subseteq> opened s3"
    using step_okD [OF assms(2) a(1)] by blast+
  have c1: "distinct (start_indices (e1 @ e2))"
    using a(4) b(4) a(6) b(5) by (auto simp: start_indices_append)
  have c2: "set (start_indices (e1 @ e2)) \<inter> opened s1 = {}"
    using a(5) a(6) b(5) by (auto simp: start_indices_append)
  have c3: "opened s3 = opened s1 \<union> set (start_indices (e1 @ e2))"
    using a(6) b(6) by (auto simp: start_indices_append)
  have c4: "set (block_indices (e1 @ e2)) \<subseteq> opened s3"
    using a(7) b(7) b(6) by (auto simp: block_indices_append)
  show "state_ok s3 \<and> allocation_extends s1 s3 \<and> stop_indices (e1 @ e2) = [] \<and>
    distinct (start_indices (e1 @ e2)) \<and> set (start_indices (e1 @ e2)) \<inter> opened s1 = {} \<and>
    opened s3 = opened s1 \<union> set (start_indices (e1 @ e2)) \<and>
    set (block_indices (e1 @ e2)) \<subseteq> opened s3"
    using b(1) allocation_extends_trans [OF a(2) b(2)] a(3) b(3) c1 c2 c3 c4
    by (simp add: stop_indices_append)
qed

lemma handle_text_cases:
  "handle_text st content = (st', evs) \<Longrightarrow>
     (st' = st \<and> evs = []) \<or>
     (\<exists>frag. frag \<noteq> [] \<and> content = Some frag \<and>
        ((textBlockAnthropicIdx st = None \<and>
          st' = st\<lparr> outputTokenCount := outputTokenCount st + estimateTokenCount frag,
                     textBlockAnthropicIdx := Some (nextAnthropicBlockIdx st),
                     nextAnthropicBlockIdx := nextAnthropicBlockIdx st + 1 \<rparr> \<and>
          evs = [ContentBlockStart (nextAnthropicBlockIdx st) (TextBlock (StringContent [])),
                 ContentBlockDelta (nextAnthropicBlockIdx st) (TextDelta frag)]) \<or>
         (\<exists>idx. textBlockAnthropicIdx st = Some idx \<and>
          st' = st\<lparr> outputTokenCount := outputTokenCount st + estimateTokenCount frag \<rparr> \<and>
          evs = [ContentBlockDelta idx (TextDelta frag)])))"
  by (auto simp: handle_text_def Let_def split: option.splits if_splits)

lemma state_ok_text_alloc:
  assumes "state_ok st" and "textBlockAnthropicIdx st = None"
  shows "state_ok (st\<lparr> outputTokenCount := n,
                      textBlockAnthropicIdx := Some (nextAnthropicBlockIdx st),
                      nextAnthropicBlockIdx := nextAnthropicBlockIdx st + 1 \<rparr>)"
proof -
  have a: "ran (openaiToolIdxToAnthropicBlockIdx st) = {..<nextAnthropicBlockIdx st}"
    using assms by (simp add: state_ok_def allocated_def)
  show ?thesis
    using assms a unfolding state_ok_def allocated_def
    by (auto simp: lessThan_Suc)
qed

lemma state_ok_tokens:
  "state_ok st \<Longrightarrow> state_ok (st\<lparr> outputTokenCount := n \<rparr>)"
  by (simp add: state_ok_def allocated_def)

lemma step_ok_handle_text:
  assumes "handle_text st content = (st', evs)"
  shows "step_ok st evs st'"
  unfolding step_ok_def
proof
  assume ok: "state_ok st"
  have sub: "opened st \<subseteq> {..<nextAnthropicBlockIdx st}"
    using ok by (rule opened_subset_allocated)
  from handle_text_cases [OF assms]
  show "state_ok st' \<and> allocation_extends st st' \<and> stop_indices evs = [] \<and>
    distinct (start_indices evs) \<and> set (start_indices evs) \<inter> opened st = {} \<and>
    opened st' = opened st \<union> set (start_indices evs) \<and>
    set (block_indices evs) \<subseteq> opened st'"
  proof (elim disjE exE conjE)
    assume "st' = st" "evs = []"
    then show ?thesis using ok by (simp add: allocation_extends_refl)
  next
    fix frag
    assume h: "textBlockAnthropicIdx st = None"
      "st' = st\<lparr> outputTokenCount := outputTokenCount st + estimateTokenCount frag,
                 textBlockAnthropicIdx := Some (nextAnthropicBlockIdx st),
                 nextAnthropicBlockIdx := nextAnthropicBlockIdx st + 1 \<rparr>"
      "evs = [ContentBlockStart (nextAnthropicBlockIdx st) (TextBlock (StringContent [])),
              ContentBlockDelta (nextAnthropicBlockIdx st) (TextDelta frag)]"
    have 1: "state_ok st'" using h(2) state_ok_text_alloc [OF ok h(1)] by simp
    have 2: "allocation_extends st st'"
      using h(1,2) by (simp add: allocation_extends_def)
    have 3: "nextAnthropicBlockIdx st \<notin> opened st" using sub by auto
    have 4: "opened st' = insert (nextAnthropicBlockIdx st) (opened st)"
      using h(1,2) by (simp add: opened_def)
    show ?thesis using 1 2 3 4 h(3) by simp
  next
    fix frag idx
    assume h: "textBlockAnthropicIdx st = Some idx"
      "st' = st\<lparr> outputTokenCount := outputTokenCount st + estimateTokenCount frag \<rparr>"
      "evs = [ContentBlockDelta idx (TextDelta frag)]"
    have 1: "state_ok st'" using h(2) state_ok_tokens [OF ok] by simp
    have 2: "allocation_extends st st'"
      using h(2) by (simp add: allocation_extends_def)
    have 4: "opened st' = opened st" "idx \<in> opened st"
      using h(1,2) by (simp_all add: opened_def)
    show ?thesis using 1 2 4 h(3) by simp
  qed
qed

lemma step_ok_handle_finish:
  assumes "handle_finish st r = Some st'"
  shows "step_ok st [] st'"
proof -
  obtain v where "st' = st\<lparr> finalAnthropicStopReason := v \<rparr>"
    using assms by (auto simp: handle_finish_def split: option.splits if_splits)
  then show ?thesis
    by (simp add: step_ok_def state_ok_def allocated_def opened_def allocation_extends_def)
qed

lemma update_tool_state_id:
  "\<not> startsWith (tool_id ts) ''tool_ph_'' \<Longrightarrow>
     tool_id (update_tool_state ts td) = tool_id ts"
  by (simp add: update_tool_state_def Let_def split: option.splits)

lemma update_tool_state_name:
  "tool_name ts \<noteq> [] \<Longrightarrow> tool_name (update_tool_state ts td) \<noteq> []"
  by (auto simp: update_tool_state_def Let_def truthy_def or_else_def split: option.splits)

lemma allocate_tool_block_old:
  "openaiToolIdxToAnthropicBlockIdx st (td_index td) = Some i \<Longrightarrow>
     allocate_tool_block requestId st td = st"
  by (simp add: allocate_tool_block_def)

lemma allocate_tool_block_new:
  "openaiToolIdxToAnthropicBlockIdx st (td_index td) = None \<Longrightarrow>
     \<exists>fresh. allocate_tool_block requestId st td =
         st\<lparr> nextAnthropicBlockIdx := nextAnthropicBlockIdx st + 1,
             openaiToolIdxToAnthropicBlockIdx :=
               (openaiToolIdxToAnthropicBlockIdx st)(td_index td \<mapsto> nextAnthropicBlockIdx st),
             toolStates := (toolStates st)(nextAnthropicBlockIdx st \<mapsto> fresh) \<rparr>"
  unfolding allocate_tool_block_def Let_def by (rule exI) (simp only: refl if_True)

lemma allocate_tool_block_cases:
  "(openaiToolIdxToAnthropicBlockIdx st (td_index td) \<noteq> None \<and>
      allocate_tool_block requestId st td = st) \<or>
   (openaiToolIdxToAnthropicBlockIdx st (td_index td) = None \<and>
      (\<exists>fresh. allocate_tool_block requestId st td =
         st\<lparr> nextAnthropicBlockIdx := nextAnthropicBlockIdx st + 1,
             openaiToolIdxToAnthropicBlockIdx :=
               (openaiToolIdxToAnthropicBlockIdx st)(td_index td \<mapsto> nextAnthropicBlockIdx st),
             toolStates := (toolStates st)(nextAnthropicBlockIdx st \<mapsto> fresh) \<rparr>))"
  using allocate_tool_block_old [of st td _ requestId] allocate_tool_block_new [of st td requestId]
  by (cases "openaiToolIdxToAnthropicBlockIdx st (td_index td)") blast+

lemma state_ok_new_tool_block:
  assumes ok: "state_ok st" and new: "openaiToolIdxToAnthropicBlockIdx st k = None"
  shows "state_ok (st\<lparr> nextAnthropicBlockIdx := nextAnthropicBlockIdx st + 1,
             openaiToolIdxToAnthropicBlockIdx :=
               (openaiToolIdxToAnthropicBlockIdx st)(k \<mapsto> nextAnthropicBlockIdx st),
             toolStates := (toolStates st)(nextAnthropicBlockIdx st \<mapsto> fresh) \<rparr>)"
proof -
  let ?n = "nextAnthropicBlockIdx st"
  let ?tm = "openaiToolIdxToAnthropicBlockIdx st"
  have al: "set_option (textBlockAnthropicIdx st) \<union> ran ?tm = {..<?n}"
    using ok by (simp add: state_ok_def allocated_def)
  have ran_new: "ran (?tm(k \<mapsto> ?n)) = insert ?n (ran ?tm)"
    using new by simp
  have fresh_ran: "?n \<notin> ran ?tm" using al by auto
  have fresh_text: "?n \<notin> set_option (textBlockAnthropicIdx st)" using al by auto
  have inj: "inj_on ?tm (dom ?tm)" using ok by (simp add: state_ok_def)
  have inj': "inj_on (?tm(k \<mapsto> ?n)) (dom (?tm(k \<mapsto> ?n)))"
  proof (rule inj_onI)
    fix x y
    assume x: "x \<in> dom (?tm(k \<mapsto> ?n))" and y: "y \<in> dom (?tm(k \<mapsto> ?n))"
      and e: "(?tm(k \<mapsto> ?n)) x = (?tm(k \<mapsto> ?n)) y"
    show "x = y"
    proof (cases "x = k")
      case True
      then have "(?tm(k \<mapsto> ?n)) y = Some ?n" using e by simp
      then show ?thesis using True fresh_ran by (cases "y = k") (auto simp: ran_def)
    next
      case False
      then have xs: "x \<in> dom ?tm" "(?tm(k \<mapsto> ?n)) x = ?tm x" using x by auto
      have "y \<noteq> k"
      proof
        assume "y = k"
        then have "?tm x = Some ?n" using e xs by simp
        then show False using fresh_ran by (auto simp: ran_def)
      qed
      then have "y \<in> dom ?tm" "?tm x = ?tm y" using y e xs by auto
      then show ?thesis using inj xs(1) by (auto dest: inj_onD)
    qed
  qed
  have sent: "set (sentToolBlockStarts st) \<subseteq> ran ?tm" using ok by (simp add: state_ok_def)
  have sent_fresh: "?n \<notin> set (sentToolBlockStarts st)" using sent fresh_ran by auto
  have conc: "\<forall>i \<in> set (sentToolBlockStarts st). \<forall>ts. toolStates st i = Some ts \<longrightarrow>
        \<not> startsWith (tool_id ts) ''tool_ph_'' \<and> tool_name ts \<noteq> []"
    using ok by (simp add: state_ok_def)
  have doms: "ran ?tm \<subseteq> dom (toolStates st)" using ok by (simp add: state_ok_def)
  have disj: "set_option (textBlockAnthropicIdx st) \<inter> ran ?tm = {}"
    using ok by (simp add: state_ok_def)
  have dist: "distinct (sentToolBlockStarts st)" using ok by (simp add: state_ok_def)
  let ?st' = "st\<lparr> nextAnthropicBlockIdx := ?n + 1,
             openaiToolIdxToAnthropicBlockIdx := ?tm(k \<mapsto> ?n),
             toolStates := (toolStates st)(?n \<mapsto> fresh) \<rparr>"
  have sel: "nextAnthropicBlockIdx ?st' = ?n + 1"
    "openaiToolIdxToAnthropicBlockIdx ?st' = ?tm(k \<mapsto> ?n)"
    "toolStates ?st' = (toolStates st)(?n \<mapsto> fresh)"
    "textBlockAnthropicIdx ?st' = textBlockAnthropicIdx st"
    "sentToolBlockStarts ?st' = sentToolBlockStarts st"
    by simp_all
  have g1: "allocated ?st' = {..<nextAnthropicBlockIdx ?st'}"
    unfolding allocated_def sel ran_new using al by (auto simp: lessThan_Suc)
  have g3: "set_option (textBlockAnthropicIdx ?st') \<inter> ran (openaiToolIdxToAnthropicBlockIdx ?st') = {}"
    unfolding sel ran_new using disj fresh_text by auto
  have g4: "ran (openaiToolIdxToAnthropicBlockIdx ?st') \<subseteq> dom (toolStates ?st')"
    unfolding sel ran_new using doms by auto
  have g5: "set (sentToolBlockStarts ?st') \<subseteq> ran (openaiToolIdxToAnthropicBlockIdx ?st')"
    unfolding sel ran_new using sent by auto
  have g7: "\<forall>i \<in> set (sentToolBlockStarts ?st'). \<forall>ts. toolStates ?st' i = Some ts \<longrightarrow>
        \<not> startsWith (tool_id ts) ''tool_ph_'' \<and> tool_name ts \<noteq> []"
    unfolding sel using conc sent_fresh by auto
  have g2: "inj_on (openaiToolIdxToAnthropicBlockIdx ?st')
      (dom (openaiToolIdxToAnthropicBlockIdx ?st'))"
    unfolding sel using inj' .
  have g6: "distinct (sentToolBlockStarts ?st')"
    unfolding sel using dist .
  show ?thesis
    unfolding state_ok_def
    using g1 g2 g3 g4 g5 g6 g7 by blast
qed

lemma state_ok_allocate:
  "state_ok st \<Longrightarrow> state_ok (allocate_tool_block requestId st td)"
  using allocate_tool_block_cases [of st td requestId] state_ok_new_tool_block
  by auto

lemma allocate_extends:
  assumes "state_ok st"
  shows "allocation_extends st (allocate_tool_block requestId st td)"
  using allocate_tool_block_cases [of st td requestId]
  by (auto simp: allocation_extends_def split: if_splits)

lemma allocate_opened:
  "opened (allocate_tool_block requestId st td) = opened st"
  using allocate_tool_block_cases [of st td requestId]
  by (auto simp: opened_def)

lemma allocate_lookup:
  assumes "state_ok st"
  shows "\<exists>cur ts. openaiToolIdxToAnthropicBlockIdx (allocate_tool_block requestId st td)
                     (td_index td) = Some cur \<and>
                   toolStates (allocate_tool_block requestId st td) cur = Some ts"
proof -
  have "state_ok (allocate_tool_block requestId st td)"
    using assms by (rule state_ok_allocate)
  then have d: "ran (openaiToolIdxToAnthropicBlockIdx (allocate_tool_block requestId st td))
      \<subseteq> dom (toolStates (allocate_tool_block requestId st td))"
    by (simp add: state_ok_def)
  obtain cur where c: "openaiToolIdxToAnthropicBlockIdx (allocate_tool_block requestId st td)
                     (td_index td) = Some cur"
    using allocate_tool_block_cases [of st td requestId] by auto
  then have "cur \<in> dom (toolStates (allocate_tool_block requestId st td))"
    using d by (auto simp: ran_def)
  then show ?thesis using c by auto
qed

lemma apply_tool_delta_open:
  assumes "can_open st1 cur (update_tool_state ts0 td)"
  shows "apply_tool_delta st1 cur ts0 td =
     (ContentBlockStart cur
        (ToolUseBlock (tool_id (update_tool_state ts0 td))
           (tool_name (update_tool_state ts0 td)) (JObj []))
      # (case delta_arguments td of
           None \<Rightarrow> []
         | Some a \<Rightarrow> [ContentBlockDelta cur (InputJsonDelta a)]),
      st1\<lparr> toolStates := (toolStates st1)(cur \<mapsto> update_tool_state ts0 td),
           outputTokenCount :=
             outputTokenCount st1
               + (case delta_arguments td of None \<Rightarrow> 0 | Some a \<Rightarrow> estimateTokenCount a),
           sentToolBlockStarts := sentToolBlockStarts st1 @ [cur] \<rparr>)"
  using assms unfolding apply_tool_delta_def Let_def can_open_def
  by (simp split: option.splits)

lemma apply_tool_delta_closed:
  assumes "\<not> can_open st1 cur (update_tool_state ts0 td)"
  shows "apply_tool_delta st1 cur ts0 td =
     ((case delta_arguments td of
         None \<Rightarrow> []
       | Some a \<Rightarrow>
           (if cur \<in> set (sentToolBlockStarts st1)
            then [ContentBlockDelta cur (InputJsonDelta a)] else [])),
      st1\<lparr> toolStates := (toolStates st1)(cur \<mapsto> update_tool_state ts0 td),
           outputTokenCount :=
             outputTokenCount st1
               + (case delta_arguments td of None \<Rightarrow> 0 | Some a \<Rightarrow> estimateTokenCount a) \<rparr>)"
  using assms unfolding apply_tool_delta_def Let_def can_open_def
  by (simp split: option.splits)

lemma step_ok_apply_tool_delta:
  assumes ok: "state_ok st1"
    and tm: "openaiToolIdxToAnthropicBlockIdx st1 k = Some cur"
    and tsl: "toolStates st1 cur = Some ts0"
    and ap: "apply_tool_delta st1 cur ts0 td = (evs, st3)"
  shows "state_ok st3 \<and> allocation_extends st1 st3 \<and> stop_indices evs = [] \<and>
    distinct (start_indices evs) \<and> set (start_indices evs) \<inter> opened st1 = {} \<and>
    opened st3 = opened st1 \<union> set (start_indices evs) \<and>
    set (block_indices evs) \<subseteq> opened st3"
proof -
  let ?ts = "update_tool_state ts0 td"
  let ?tm = "openaiToolIdxToAnthropicBlockIdx st1"
  have cur_ran: "cur \<in> ran ?tm" using tm by (rule ranI)
  have al: "allocated st1 = {..<nextAnthropicBlockIdx st1}"
    and inj: "inj_on ?tm (dom ?tm)"
    and disj: "set_option (textBlockAnthropicIdx st1) \<inter> ran ?tm = {}"
    and doms: "ran ?tm \<subseteq> dom (toolStates st1)"
    and sent: "set (sentToolBlockStarts st1) \<subseteq> ran ?tm"
    and dist: "distinct (sentToolBlockStarts st1)"
    and conc: "\<forall>i \<in> set (sentToolBlockStarts st1). \<forall>ts. toolStates st1 i = Some ts \<longrightarrow>
        \<not> startsWith (tool_id ts) ''tool_ph_'' \<and> tool_name ts \<noteq> []"
    using ok unfolding state_ok_def by blast+
  have cur_text: "cur \<notin> set_option (textBlockAnthropicIdx st1)"
    using disj cur_ran by auto
  show ?thesis
  proof (cases "can_open st1 cur ?ts")
    case True
    have fresh: "cur \<notin> set (sentToolBlockStarts st1)"
      and good: "\<not> startsWith (tool_id ?ts) ''tool_ph_''" "tool_name ?ts \<noteq> []"
      using True by (simp_all add: can_open_def)
    have eq: "(evs, st3) =
     (ContentBlockStart cur (ToolUseBlock (tool_id ?ts) (tool_name ?ts) (JObj []))
      # (case delta_arguments td of
           None \<Rightarrow> []
         | Some a \<Rightarrow> [ContentBlockDelta cur (InputJsonDelta a)]),
      st1\<lparr> toolStates := (toolStates st1)(cur \<mapsto> ?ts),
           outputTokenCount :=
             outputTokenCount st1
               + (case delta_arguments td of None \<Rightarrow> 0 | Some a \<Rightarrow> estimateTokenCount a),
           sentToolBlockStarts := sentToolBlockStarts st1 @ [cur] \<rparr>)"
      using ap apply_tool_delta_open [OF True] by simp
    have sel: "nextAnthropicBlockIdx st3 = nextAnthropicBlockIdx st1"
      "openaiToolIdxToAnthropicBlockIdx st3 = ?tm"
      "textBlockAnthropicIdx st3 = textBlockAnthropicIdx st1"
      "toolStates st3 = (toolStates st1)(cur \<mapsto> ?ts)"
      "sentToolBlockStarts st3 = sentToolBlockStarts st1 @ [cur]"
      using eq by simp_all
    have g1: "allocated st3 = {..<nextAnthropicBlockIdx st3}"
      unfolding allocated_def sel using al by (simp add: allocated_def)
    have g2: "inj_on (openaiToolIdxToAnthropicBlockIdx st3) (dom (openaiToolIdxToAnthropicBlockIdx st3))"
      unfolding sel using inj .
    have g3: "set_option (textBlockAnthropicIdx st3) \<inter> ran (openaiToolIdxToAnthropicBlockIdx st3) = {}"
      unfolding sel using disj .
    have g4: "ran (openaiToolIdxToAnthropicBlockIdx st3) \<subseteq> dom (toolStates st3)"
      unfolding sel using doms by auto
    have g5: "set (sentToolBlockStarts st3) \<subseteq> ran (openaiToolIdxToAnthropicBlockIdx st3)"
      unfolding sel using sent cur_ran by auto
    have g6: "distinct (sentToolBlockStarts st3)"
      unfolding sel using dist fresh by simp
    have g7: "\<forall>i \<in> set (sentToolBlockStarts st3). \<forall>ts. toolStates st3 i = Some ts \<longrightarrow>
        \<not> startsWith (tool_id ts) ''tool_ph_'' \<and> tool_name ts \<noteq> []"
      unfolding sel using conc good by auto
    have s1: "state_ok st3"
      unfolding state_ok_def using g1 g2 g3 g4 g5 g6 g7 by blast
    have s2: "allocation_extends st1 st3"
      unfolding allocation_extends_def sel by simp
    have s3: "stop_indices evs = []" "start_indices evs = [cur]"
      "set (block_indices evs) \<subseteq> {cur}"
      using eq by (cases "delta_arguments td"; simp)+
    have s4: "opened st3 = insert cur (opened st1)"
      unfolding opened_def sel by simp
    have s5: "cur \<notin> opened st1"
      unfolding opened_def using fresh cur_text by simp
    show ?thesis using s1 s2 s3 s4 s5 by auto
  next
    case False
    have eq: "(evs, st3) =
     ((case delta_arguments td of
         None \<Rightarrow> []
       | Some a \<Rightarrow>
           (if cur \<in> set (sentToolBlockStarts st1)
            then [ContentBlockDelta cur (InputJsonDelta a)] else [])),
      st1\<lparr> toolStates := (toolStates st1)(cur \<mapsto> ?ts),
           outputTokenCount :=
             outputTokenCount st1
               + (case delta_arguments td of None \<Rightarrow> 0 | Some a \<Rightarrow> estimateTokenCount a) \<rparr>)"
      using ap apply_tool_delta_closed [OF False] by simp
    have evs: "evs = [] \<or> (cur \<in> set (sentToolBlockStarts st1) \<and>
                  (\<exists>a. evs = [ContentBlockDelta cur (InputJsonDelta a)]))"
      using eq by (cases "delta_arguments td") (simp_all split: if_splits)
    have sel: "nextAnthropicBlockIdx st3 = nextAnthropicBlockIdx st1"
      "openaiToolIdxToAnthropicBlockIdx st3 = ?tm"
      "textBlockAnthropicIdx st3 = textBlockAnthropicIdx st1"
      "toolStates st3 = (toolStates st1)(cur \<mapsto> ?ts)"
      "sentToolBlockStarts st3 = sentToolBlockStarts st1"
      using eq by simp_all
    have g1: "allocated st3 = {..<nextAnthropicBlockIdx st3}"
      unfolding allocated_def sel using al by (simp add: allocated_def)
    have g2: "inj_on (openaiToolIdxToAnthropicBlockIdx st3) (dom (openaiToolIdxToAnthropicBlockIdx st3))"
      unfolding sel using inj .
    have g3: "set_option (textBlockAnthropicIdx st3) \<inter> ran (openaiToolIdxToAnthropicBlockIdx st3) = {}"
      unfolding sel using disj .
    have g4: "ran (openaiToolIdxToAnthropicBlockIdx st3) \<subseteq> dom (toolStates st3)"
      unfolding sel using doms by auto
    have g5: "set (sentToolBlockStarts st3) \<subseteq> ran (openaiToolIdxToAnthropicBlockIdx st3)"
      unfolding sel using sent .
    have g6: "distinct (sentToolBlockStarts st3)"
      unfolding sel using dist .
    have keep: "cur \<in> set (sentToolBlockStarts st1) \<Longrightarrow>
        \<not> startsWith (tool_id ?ts) ''tool_ph_'' \<and> tool_name ?ts \<noteq> []"
    proof -
      assume m: "cur \<in> set (sentToolBlockStarts st1)"
      then have c0: "\<not> startsWith (tool_id ts0) ''tool_ph_''" "tool_name ts0 \<noteq> []"
        using conc tsl by auto
      show ?thesis
        using update_tool_state_id [OF c0(1), of td] update_tool_state_name [OF c0(2), of td] c0(1)
        by simp
    qed
    have g7: "\<forall>i \<in> set (sentToolBlockStarts st3). \<forall>ts. toolStates st3 i = Some ts \<longrightarrow>
        \<not> startsWith (tool_id ts) ''tool_ph_'' \<and> tool_name ts \<noteq> []"
      unfolding sel using conc keep by auto
    have s1: "state_ok st3"
      unfolding state_ok_def using g1 g2 g3 g4 g5 g6 g7 by blast
    have s2: "allocation_extends st1 st3"
      unfolding allocation_extends_def sel by simp
    have s3: "stop_indices evs = []" "start_indices evs = []"
      "set (block_indices evs) \<subseteq> opened st1"
      using evs by (auto simp: opened_def)
    have s4: "opened st3 = opened st1"
      unfolding opened_def sel by simp
    show ?thesis using s1 s2 s3 s4 by auto
  qed
qed

lemma process_tool_delta_ok:
  assumes ok: "state_ok st"
  shows "\<exists>evs st'. process_tool_delta requestId st td = (evs, None, st') \<and> step_ok st evs st'"
proof -
  let ?st1 = "allocate_tool_block requestId st td"
  have ok1: "state_ok ?st1" using ok by (rule state_ok_allocate)
  obtain cur ts0 where l: "openaiToolIdxToAnthropicBlockIdx ?st1 (td_index td) = Some cur"
    "toolStates ?st1 cur = Some ts0"
    using allocate_lookup [OF ok] by blast
  obtain evs st3 where ap: "apply_tool_delta ?st1 cur ts0 td = (evs, st3)"
    by (cases "apply_tool_delta ?st1 cur ts0 td") auto
  have run: "process_tool_delta requestId st td = (evs, None, st3)"
    unfolding process_tool_delta_def Let_def using l ap by simp
  have s: "state_ok st3 \<and> allocation_extends ?st1 st3 \<and> stop_indices evs = [] \<and>
    distinct (start_indices evs) \<and> set (start_indices evs) \<inter> opened ?st1 = {} \<and>
    opened st3 = opened ?st1 \<union> set (start_indices evs) \<and>
    set (block_indices evs) \<subseteq> opened st3"
    using step_ok_apply_tool_delta [OF ok1 l ap] .
  have ext: "allocation_extends st st3"
    using allocation_extends_trans [OF allocate_extends [OF ok]] s by blast
  have o: "opened ?st1 = opened st" by (rule allocate_opened)
  have "step_ok st evs st3"
    unfolding step_ok_def using s ext unfolding o by blast
  then show ?thesis using run by blast
qed

lemma handle_finish_None: "(handle_finish st r = None) = (\<not> truthy r)"
  by (simp add: handle_finish_def truthy_def split: option.splits)

lemma handle_tool_calls_ok:
  "state_ok st \<Longrightarrow>
     \<exists>evs st'. handle_tool_calls requestId st tds = (evs, None, st') \<and> step_ok st evs st'"
proof (induction tds arbitrary: st)
  case Nil
  then show ?case by (simp add: step_ok_refl)
next
  case (Cons td tds)
  obtain e1 s1 where a: "process_tool_delta requestId st td = (e1, None, s1)" "step_ok st e1 s1"
    using process_tool_delta_ok [OF Cons.prems] by blast
  have ok1: "state_ok s1" using step_okD(1) [OF a(2) Cons.prems] .
  obtain e2 s2 where b: "handle_tool_calls requestId s1 tds = (e2, None, s2)" "step_ok s1 e2 s2"
    using Cons.IH [OF ok1] by blast
  have "handle_tool_calls requestId st (td # tds) = (e1 @ e2, None, s2)"
    using a(1) b(1) by simp
  then show ?case using step_ok_trans [OF a(2) b(2)] by blast
qed

lemma process_chunk_ok:
  assumes ok: "state_ok st"
  shows "\<exists>evs st'. process_chunk requestId st c
            = (evs, if truthy (finish_reason c) then Break else Continue, st')
          \<and> step_ok st evs st'"
proof -
  obtain s1 e1 where t: "handle_text st (delta_content c) = (s1, e1)"
    by (cases "handle_text st (delta_content c)") auto
  have r1: "step_ok st e1 s1" using t by (rule step_ok_handle_text)
  have ok1: "state_ok s1" using step_okD(1) [OF r1 ok] .
  obtain e2 s2 where u: "handle_tool_calls requestId s1
      (case delta_tool_calls c of None \<Rightarrow> [] | Some tds \<Rightarrow> tds) = (e2, None, s2)"
    and r2: "step_ok s1 e2 s2"
    using handle_tool_calls_ok [OF ok1] by blast
  have r12: "step_ok st (e1 @ e2) s2" using step_ok_trans [OF r1 r2] .
  show ?thesis
  proof (cases "handle_finish s2 (finish_reason c)")
    case None
    then have "\<not> truthy (finish_reason c)" by (simp add: handle_finish_None)
    moreover have "process_chunk requestId st c = (e1 @ e2, Continue, s2)"
      using t u None by (simp add: process_chunk_def)
    ultimately show ?thesis using r12 by auto
  next
    case (Some s3)
    then have "truthy (finish_reason c)" using handle_finish_None [of s2 "finish_reason c"] by auto
    moreover have "process_chunk requestId st c = (e1 @ e2, Break, s3)"
      using t u Some by (simp add: process_chunk_def)
    moreover have "step_ok st ((e1 @ e2) @ []) s3"
      using step_ok_trans [OF r12 step_ok_handle_finish [OF Some]] .
    ultimately show ?thesis by auto
  qed
qed

lemma consume_ok:
  "state_ok st \<Longrightarrow>
     \<exists>evs oc st'. consume requestId st items = (evs, oc, st') \<and> step_ok st evs st'
        \<and> (\<forall>e. oc = Some e \<longrightarrow> Raises e \<in> set items)"
proof (induction items arbitrary: st)
  case Nil
  then show ?case by (simp add: step_ok_refl)
next
  case (Cons x items)
  show ?case
  proof (cases x)
    case Unparseable
    then show ?thesis using Cons.IH [OF Cons.prems] by auto
  next
    case NoChoices
    then show ?thesis using Cons.IH [OF Cons.prems] by auto
  next
    case (Raises e)
    then show ?thesis by (simp add: step_ok_refl)
  next
    case (Parsed c)
    obtain e1 s1 where a: "process_chunk requestId st c
            = (e1, if truthy (finish_reason c) then Break else Continue, s1)"
      and r1: "step_ok st e1 s1"
      using process_chunk_ok [OF Cons.prems] by blast
    show ?thesis
    proof (cases "truthy (finish_reason c)")
      case True
      then have "consume requestId st (x # items) = (e1, None, s1)"
        using a Parsed by simp
      then show ?thesis using r1 by simp
    next
      case False
      have ok1: "state_ok s1" using step_okD(1) [OF r1 Cons.prems] .
      obtain e2 oc s2 where b: "consume requestId s1 items = (e2, oc, s2)"
        and r2: "step_ok s1 e2 s2" and rz: "\<forall>e. oc = Some e \<longrightarrow> Raises e \<in> set items"
        using Cons.IH [OF ok1] by blast
      have "consume requestId st (x # items) = (e1 @ e2, oc, s2)"
        using a b False Parsed by simp
      then show ?thesis using step_ok_trans [OF r1 r2] rz by auto
    qed
  qed
qed

lemma handle_tool_calls_rel:
  assumes refl: "\<And>s. R s [] s"
    and trans: "\<And>s1 e1 s2 e2 s3. state_ok s1 \<Longrightarrow> state_ok s2 \<Longrightarrow>
       R s1 e1 s2 \<Longrightarrow> R s2 e2 s3 \<Longrightarrow> R s1 (e1 @ e2) s3"
    and tool: "\<And>s td e s'. state_ok s \<Longrightarrow> P td \<Longrightarrow>
       process_tool_delta requestId s td = (e, None, s') \<Longrightarrow> R s e s'"
  shows "state_ok st \<Longrightarrow> \<forall>td \<in> set tds. P td \<Longrightarrow>
     handle_tool_calls requestId st tds = (evs, oc, st') \<Longrightarrow> R st evs st'"
proof (induction tds arbitrary: st evs oc st')
  case Nil
  then show ?case using refl by simp
next
  case (Cons td tds)
  obtain e1 s1 where a: "process_tool_delta requestId st td = (e1, None, s1)" "step_ok st e1 s1"
    using process_tool_delta_ok [OF Cons.prems(1)] by blast
  have ok1: "state_ok s1" using step_okD(1) [OF a(2) Cons.prems(1)] .
  obtain e2 oc2 s2 where b: "handle_tool_calls requestId s1 tds = (e2, oc2, s2)"
    by (cases "handle_tool_calls requestId s1 tds") auto
  have r1: "R st e1 s1" using tool [OF Cons.prems(1) _ a(1)] Cons.prems(2) by simp
  have r2: "R s1 e2 s2" using Cons.IH [OF ok1 _ b] Cons.prems(2) by simp
  have "handle_tool_calls requestId st (td # tds) = (e1 @ e2, oc2, s2)"
    using a(1) b by simp
  then have "evs = e1 @ e2" "st' = s2" using Cons.prems(3) by simp_all
  then show ?case using trans [OF Cons.prems(1) ok1 r1 r2] by simp
qed

lemma process_chunk_rel:
  assumes refl: "\<And>s. R s [] s"
    and trans: "\<And>s1 e1 s2 e2 s3. state_ok s1 \<Longrightarrow> state_ok s2 \<Longrightarrow>
       R s1 e1 s2 \<Longrightarrow> R s2 e2 s3 \<Longrightarrow> R s1 (e1 @ e2) s3"
    and textr: "\<And>s content s' e. state_ok s \<Longrightarrow> handle_text s content = (s', e) \<Longrightarrow> R s e s'"
    and tool: "\<And>s td e s'. state_ok s \<Longrightarrow> P td \<Longrightarrow>
       process_tool_delta requestId s td = (e, None, s') \<Longrightarrow> R s e s'"
    and fin: "\<And>s s'. state_ok s \<Longrightarrow> Q c \<Longrightarrow>
       handle_finish s (finish_reason c) = Some s' \<Longrightarrow> R s [] s'"
    and ok: "state_ok st"
    and P: "\<forall>td \<in> set (tool_deltas_of c). P td"
    and Q: "Q c"
    and run: "process_chunk requestId st c = (evs, ctl, st')"
  shows "R st evs st'"
proof -
  obtain s1 e1 where t: "handle_text st (delta_content c) = (s1, e1)"
    by (cases "handle_text st (delta_content c)") auto
  have k1: "step_ok st e1 s1" using t by (rule step_ok_handle_text)
  have ok1: "state_ok s1" using step_okD(1) [OF k1 ok] .
  obtain e2 s2 where u: "handle_tool_calls requestId s1 (tool_deltas_of c) = (e2, None, s2)"
    and k2: "step_ok s1 e2 s2"
    using handle_tool_calls_ok [OF ok1] by blast
  have ok2: "state_ok s2" using step_okD(1) [OF k2 ok1] .
  have u': "handle_tool_calls requestId s1
      (case delta_tool_calls c of None \<Rightarrow> [] | Some tds \<Rightarrow> tds) = (e2, None, s2)"
    using u by (simp add: tool_deltas_of_def)
  have r1: "R st e1 s1" using textr [OF ok t] .
  have r2: "R s1 e2 s2"
    by (rule handle_tool_calls_rel [where R = R and P = P, OF _ _ _ ok1 P u])
      (rule refl trans tool; assumption)+
  have r12: "R st (e1 @ e2) s2" using trans [OF ok ok1 r1 r2] .
  show ?thesis
  proof (cases "handle_finish s2 (finish_reason c)")
    case None
    then have "process_chunk requestId st c = (e1 @ e2, Continue, s2)"
      using t u' by (simp add: process_chunk_def)
    then show ?thesis using run r12 by simp
  next
    case (Some s3)
    then have "process_chunk requestId st c = (e1 @ e2, Break, s3)"
      using t u' by (simp add: process_chunk_def)
    then have e: "evs = e1 @ e2" "st' = s3" using run by simp_all
    have k12: "step_ok st (e1 @ e2) s2" using step_ok_trans [OF k1 k2] .
    have "R st ((e1 @ e2) @ []) s3"
      using trans [OF ok ok2 r12 fin [OF ok2 Q Some]] .
    then show ?thesis using e by simp
  qed
qed

lemma consume_rel:
  assumes refl: "\<And>s. R s [] s"
    and trans: "\<And>s1 e1 s2 e2 s3. state_ok s1 \<Longrightarrow> state_ok s2 \<Longrightarrow>
       R s1 e1 s2 \<Longrightarrow> R s2 e2 s3 \<Longrightarrow> R s1 (e1 @ e2) s3"
    and textr: "\<And>s content s' e. state_ok s \<Longrightarrow> handle_text s content = (s', e) \<Longrightarrow> R s e s'"
    and tool: "\<And>s td e s'. state_ok s \<Longrightarrow> P td \<Longrightarrow>
       process_tool_delta requestId s td = (e, None, s') \<Longrightarrow> R s e s'"
    and fin: "\<And>s c s'. state_ok s \<Longrightarrow> Q c \<Longrightarrow>
       handle_finish s (finish_reason c) = Some s' \<Longrightarrow> R s [] s'"
  shows "state_ok st \<Longrightarrow>
     \<forall>c \<in> set (consumed items). Q c \<and> (\<forall>td \<in> set (tool_deltas_of c). P td) \<Longrightarrow>
     consume requestId st items = (evs, oc, st') \<Longrightarrow> R st evs st'"
proof (induction items arbitrary: st evs oc st')
  case Nil
  then show ?case using refl by simp
next
  case (Cons x items)
  show ?case
  proof (cases x)
    case Unparseable
    then show ?thesis using Cons.IH [OF Cons.prems(1)] Cons.prems(2,3) by simp
  next
    case NoChoices
    then show ?thesis using Cons.IH [OF Cons.prems(1)] Cons.prems(2,3) by simp
  next
    case (Raises e)
    then show ?thesis using Cons.prems(3) refl by simp
  next
    case (Parsed c)
    obtain e1 s1 where a: "process_chunk requestId st c
            = (e1, if truthy (finish_reason c) then Break else Continue, s1)"
      and k1: "step_ok st e1 s1"
      using process_chunk_ok [OF Cons.prems(1)] by blast
    have ok1: "state_ok s1" using step_okD(1) [OF k1 Cons.prems(1)] .
    have pq: "Q c" "\<forall>td \<in> set (tool_deltas_of c). P td"
      using Cons.prems(2) Parsed by simp_all
    have r1: "R st e1 s1"
      by (rule process_chunk_rel [where R = R and P = P and Q = Q,
            OF _ _ _ _ _ Cons.prems(1) pq(2) pq(1) a])
        (rule refl trans textr tool fin; assumption)+
    show ?thesis
    proof (cases "truthy (finish_reason c)")
      case True
      then have "consume requestId st (x # items) = (e1, None, s1)"
        using a Parsed by simp
      then show ?thesis using r1 Cons.prems(3) by simp
    next
      case False
      obtain e2 oc2 s2 where b: "consume requestId s1 items = (e2, oc2, s2)"
        by (cases "consume requestId s1 items") auto
      have rest: "\<forall>c \<in> set (consumed items). Q c \<and> (\<forall>td \<in> set (tool_deltas_of c). P td)"
        using Cons.prems(2) Parsed False by simp
      have r2: "R s1 e2 s2" using Cons.IH [OF ok1 rest b] .
      have "consume requestId st (x # items) = (e1 @ e2, oc2, s2)"
        using a b False Parsed by simp
      then have "evs = e1 @ e2" "st' = s2" using Cons.prems(3) by simp_all
      then show ?thesis using trans [OF Cons.prems(1) ok1 r1 r2] by simp
    qed
  qed
qed

text \<open>What one tool-call delta does to a state that is ok, spelled out.\<close>

lemma process_tool_delta_state:
  assumes ok: "state_ok st"
    and run: "process_tool_delta requestId st td = (evs, oc, st')"
  shows "\<exists>cur ts0.
     openaiToolIdxToAnthropicBlockIdx (allocate_tool_block requestId st td) (td_index td) = Some cur \<and>
     toolStates (allocate_tool_block requestId st td) cur = Some ts0 \<and>
     oc = None \<and>
     openaiToolIdxToAnthropicBlockIdx st' =
       openaiToolIdxToAnthropicBlockIdx (allocate_tool_block requestId st td) \<and>
     toolStates st' =
       (toolStates (allocate_tool_block requestId st td))(cur \<mapsto> update_tool_state ts0 td) \<and>
     finalAnthropicStopReason st' = finalAnthropicStopReason st \<and>
     outputTokenCount st' =
       outputTokenCount st
         + (case delta_arguments td of None \<Rightarrow> 0 | Some a \<Rightarrow> estimateTokenCount a) \<and>
     (\<forall>e \<in> set evs. (\<exists>b. e = ContentBlockStart cur b) \<or>
                      (\<exists>a. e = ContentBlockDelta cur (InputJsonDelta a)))"
proof -
  let ?st1 = "allocate_tool_block requestId st td"
  obtain cur ts0 where l: "openaiToolIdxToAnthropicBlockIdx ?st1 (td_index td) = Some cur"
    "toolStates ?st1 cur = Some ts0"
    using allocate_lookup [OF ok] by blast
  have fr: "finalAnthropicStopReason ?st1 = finalAnthropicStopReason st"
    "outputTokenCount ?st1 = outputTokenCount st"
    using allocate_tool_block_cases [of st td requestId] by auto
  have run': "(evs, oc, st') =
      (case apply_tool_delta ?st1 cur ts0 td of (evs, st3) \<Rightarrow> (evs, None, st3))"
    using run l unfolding process_tool_delta_def Let_def by simp
  show ?thesis
  proof (cases "can_open ?st1 cur (update_tool_state ts0 td)")
    case True
    show ?thesis
      using run' l fr unfolding apply_tool_delta_open [OF True]
      by (cases "delta_arguments td") auto
  next
    case False
    show ?thesis
      using run' l fr unfolding apply_tool_delta_closed [OF False]
      by (cases "delta_arguments td") auto
  qed
qed

lemma consume_event_names:
  assumes ok: "state_ok st" and run: "consume requestId st items = (evs, oc, st')"
  shows "\<forall>e \<in> set evs. event_name e = ''content_block_start''
                       \<or> event_name e = ''content_block_delta''"
proof -
  let ?R = "\<lambda>(s::stream_state) es (s'::stream_state).
      \<forall>e \<in> set es. event_name e = ''content_block_start''
                    \<or> event_name e = ''content_block_delta''"
  have "?R st evs st'"
  proof (rule consume_rel [where R = ?R and P = "\<lambda>_. True" and Q = "\<lambda>_. True", OF _ _ _ _ _ ok _ run])
    show "\<And>s. ?R s [] s" by simp
    show "\<And>s1 e1 s2 e2 s3. state_ok s1 \<Longrightarrow> state_ok s2 \<Longrightarrow>
       ?R s1 e1 s2 \<Longrightarrow> ?R s2 e2 s3 \<Longrightarrow> ?R s1 (e1 @ e2) s3" by auto
    show "\<And>s content s' e. state_ok s \<Longrightarrow> handle_text s content = (s', e) \<Longrightarrow> ?R s e s'"
      using handle_text_cases by fastforce
    show "\<And>s td e s'. state_ok s \<Longrightarrow> True \<Longrightarrow>
       process_tool_delta requestId s td = (e, None, s') \<Longrightarrow> ?R s e s'"
      using process_tool_delta_state by fastforce
    show "\<And>s c s'. state_ok s \<Longrightarrow> True \<Longrightarrow>
       handle_finish s (finish_reason c) = Some s' \<Longrightarrow> ?R s [] s'" by simp
    show "\<forall>c \<in> set (consumed items). True \<and> (\<forall>td \<in> set (tool_deltas_of c). True)" by simp
  qed
  then show ?thesis .
qed

lemma consume_keeps_stop_reason:
  assumes ok: "state_ok st" and run: "consume requestId st items = (evs, oc, st')"
    and quiet: "\<forall>c \<in> set (consumed items). \<not> truthy (finish_reason c)"
  shows "finalAnthropicStopReason st' = finalAnthropicStopReason st"
proof -
  let ?R = "\<lambda>(s::stream_state) (es::event list) (s'::stream_state).
      finalAnthropicStopReason s' = finalAnthropicStopReason s"
  have "?R st evs st'"
  proof (rule consume_rel [where R = ?R and P = "\<lambda>_. True"
        and Q = "\<lambda>c. \<not> truthy (finish_reason c)", OF _ _ _ _ _ ok _ run])
    show "\<And>s. ?R s [] s" by simp
    show "\<And>s1 e1 s2 e2 s3. state_ok s1 \<Longrightarrow> state_ok s2 \<Longrightarrow>
       ?R s1 e1 s2 \<Longrightarrow> ?R s2 e2 s3 \<Longrightarrow> ?R s1 (e1 @ e2) s3" by simp
    show "\<And>s content s' e. state_ok s \<Longrightarrow> handle_text s content = (s', e) \<Longrightarrow> ?R s e s'"
      using handle_text_cases by fastforce
    show "\<And>s td e s'. state_ok s \<Longrightarrow> True \<Longrightarrow>
       process_tool_delta requestId s td = (e, None, s') \<Longrightarrow> ?R s e s'"
      using process_tool_delta_state by fastforce
    show "\<And>s c s'. state_ok s \<Longrightarrow> \<not> truthy (finish_reason c) \<Longrightarrow>
       handle_finish s (finish_reason c) = Some s' \<Longrightarrow> ?R s [] s'"
      using handle_finish_None by (metis option.distinct(1))
    show "\<forall>c \<in> set (consumed items).
        \<not> truthy (finish_reason c) \<and> (\<forall>td \<in> set (tool_deltas_of c). True)"
      using quiet by simp
  qed
  then show ?thesis .
qed

lemma consumed_subset: "c \<in> set (consumed items) \<Longrightarrow> Parsed c \<in> set items"
  by (induction items rule: consumed.induct) (auto split: if_splits)

lemma block_stops_names:
  "\<forall>e \<in> set (block_stops st). event_name e = ''content_block_stop''"
  by (auto simp: block_stops_def split: option.splits)

lemma convert_normal:
  assumes run: "consume requestId initial_state openaiStream = (evs, None, st)"
  shows "convertOpenAIStreamToAnthropic uuid openaiStream model estimatedInputTokens requestId
           = MessageStart (''msg_stream_'' @ requestId @ ''_'' @ take 8 uuid) model []
               estimatedInputTokens 0
             # Ping
             # (evs @ block_stops st)
             @ [MessageDelta (finalAnthropicStopReason st) (outputTokenCount st), MessageStop]"
  using run by (simp add: convertOpenAIStreamToAnthropic_def closing_events_def)

section \<open>Properties of the streaming transcoder\<close>

text \<open>
  C2: when the loop ends without a thrown value, the generator yields exactly
  \<open>message_start\<close> (with the estimated input tokens it was given and an empty content
  array), then \<open>ping\<close>, then only block events (\<open>content_block_start\<close>,
  \<open>content_block_delta\<close>, \<open>content_block_stop\<close>), then \<open>message_delta\<close>, then
  \<open>message_stop\<close>, and nothing after it; so each of the four framing events occurs
  exactly once.
\<close>

theorem normal_stream_frame:
  assumes run: "consume requestId initial_state openaiStream = (evs, None, st)"
  shows "convertOpenAIStreamToAnthropic uuid openaiStream model estimatedInputTokens requestId
           = MessageStart (''msg_stream_'' @ requestId @ ''_'' @ take 8 uuid) model []
               estimatedInputTokens 0
             # Ping
             # (evs @ block_stops st)
             @ [MessageDelta (finalAnthropicStopReason st) (outputTokenCount st), MessageStop]
         \<and> (\<forall>e \<in> set (evs @ block_stops st).
               event_name e = ''content_block_start'' \<or>
               event_name e = ''content_block_delta'' \<or>
               event_name e = ''content_block_stop'')
         \<and> (\<forall>n \<in> {''message_start'', ''ping'', ''message_delta'', ''message_stop''}.
               count_list
                 (map event_name
                    (convertOpenAIStreamToAnthropic uuid openaiStream model
                       estimatedInputTokens requestId)) n = 1)"
proof -
  have a: "\<forall>e \<in> set evs. event_name e = ''content_block_start''
                       \<or> event_name e = ''content_block_delta''"
    using consume_event_names [OF state_ok_initial run] .
  have b: "\<forall>e \<in> set (block_stops st). event_name e = ''content_block_stop''"
    by (rule block_stops_names)
  have m: "\<forall>e \<in> set (evs @ block_stops st).
               event_name e = ''content_block_start'' \<or>
               event_name e = ''content_block_delta'' \<or>
               event_name e = ''content_block_stop''"
    using a b by auto
  have z: "count_list (map event_name (evs @ block_stops st)) n = 0"
    if "n \<in> {''message_start'', ''ping'', ''message_delta'', ''message_stop''}" for n
  proof -
    have "n \<notin> set (map event_name (evs @ block_stops st))"
    proof
      assume "n \<in> set (map event_name (evs @ block_stops st))"
      then obtain e where "e \<in> set (evs @ block_stops st)" "n = event_name e" by auto
      then have "n = ''content_block_start'' \<or> n = ''content_block_delta''
          \<or> n = ''content_block_stop''"
        using m by auto
      then show False using that by (elim disjE) simp_all
    qed
    then show ?thesis by (simp add: count_list_0_iff)
  qed
  have cnt: "count_list
                 (map event_name
                    (convertOpenAIStreamToAnthropic uuid openaiStream model
                       estimatedInputTokens requestId)) n = 1"
    if "n \<in> {''message_start'', ''ping'', ''message_delta'', ''message_stop''}" for n
    unfolding convert_normal [OF run]
    using z [OF that] that
    by (simp del: map_append) (elim disjE; simp)
  show ?thesis using m cnt convert_normal [OF run] by blast
qed

text \<open>
  C5, amended: when no chunk of the inbound sequence carries a finish reason and the
  upstream does not throw, the loop ends when the sequence is exhausted and the
  generator then yields the same closing events as after a finish reason: a
  \<open>content_block_stop\<close> for every opened block, \<open>message_delta\<close> with the default
  stop reason \<open>end_turn\<close>, and \<open>message_stop\<close>.
\<close>

theorem exhausted_stream_still_closes:
  assumes quiet: "\<forall>x \<in> set openaiStream. \<not> carries_finish_reason x \<and> \<not> is_raise x"
  shows "\<exists>evs st.
           consume requestId initial_state openaiStream = (evs, None, st) \<and>
           convertOpenAIStreamToAnthropic uuid openaiStream model estimatedInputTokens requestId
             = MessageStart (''msg_stream_'' @ requestId @ ''_'' @ take 8 uuid) model []
                 estimatedInputTokens 0
               # Ping
               # (evs @ block_stops st)
               @ [MessageDelta (StopReason ''end_turn'') (outputTokenCount st), MessageStop]"
proof -
  obtain evs oc st where run: "consume requestId initial_state openaiStream = (evs, oc, st)"
    and thrown: "\<forall>e. oc = Some e \<longrightarrow> Raises e \<in> set openaiStream"
    using consume_ok [OF state_ok_initial] by blast
  have "oc = None"
  proof (cases oc)
    case None
    then show ?thesis .
  next
    case (Some e)
    then have "Raises e \<in> set openaiStream" using thrown by simp
    then have "\<not> is_raise (Raises e)" using quiet by blast
    then show ?thesis by (simp add: is_raise_def)
  qed
  then have run': "consume requestId initial_state openaiStream = (evs, None, st)"
    using run by simp
  have q: "\<forall>c \<in> set (consumed openaiStream). \<not> truthy (finish_reason c)"
  proof
    fix c assume "c \<in> set (consumed openaiStream)"
    then have "Parsed c \<in> set openaiStream" by (rule consumed_subset)
    then have "\<not> carries_finish_reason (Parsed c)" using quiet by blast
    then show "\<not> truthy (finish_reason c)" by (simp add: carries_finish_reason_def)
  qed
  have "finalAnthropicStopReason st = StopReason ''end_turn''"
    using consume_keeps_stop_reason [OF state_ok_initial run' q]
    by (simp add: initial_state_def)
  then show ?thesis
    using run' convert_normal [OF run', of uuid model estimatedInputTokens] by simp
qed

lemma sample_run:
  "consume ''req'' initial_state
     [Parsed \<lparr> delta_content = Some ''Hi'', delta_tool_calls = None, finish_reason = None \<rparr>,
      Parsed \<lparr> delta_content = None, delta_tool_calls = None, finish_reason = Some ''stop'' \<rparr>]
   = ([ContentBlockStart 0 (TextBlock (StringContent [])), ContentBlockDelta 0 (TextDelta ''Hi'')],
      None,
      \<lparr> nextAnthropicBlockIdx = 1,
        textBlockAnthropicIdx = Some 0,
        openaiToolIdxToAnthropicBlockIdx = Map.empty,
        toolStates = Map.empty,
        sentToolBlockStarts = [],
        outputTokenCount = 1,
        finalAnthropicStopReason = StopReason ''end_turn'' \<rparr>)"
  by (simp add: process_chunk_def handle_text_def handle_finish_def initial_state_def
      estimateTokenCount_def lookupStopReason_def openaiToAnthropicStopReasonMap_def Let_def)

lemma sample_run_open:
  "consume ''req'' initial_state
     [Unparseable,
      Parsed \<lparr> delta_content = Some ''Hi'', delta_tool_calls = None, finish_reason = None \<rparr>,
      NoChoices]
   = ([ContentBlockStart 0 (TextBlock (StringContent [])), ContentBlockDelta 0 (TextDelta ''Hi'')],
      None,
      \<lparr> nextAnthropicBlockIdx = 1,
        textBlockAnthropicIdx = Some 0,
        openaiToolIdxToAnthropicBlockIdx = Map.empty,
        toolStates = Map.empty,
        sentToolBlockStarts = [],
        outputTokenCount = 1,
        finalAnthropicStopReason = StopReason ''end_turn'' \<rparr>)"
  by (simp add: process_chunk_def handle_text_def handle_finish_def initial_state_def
      estimateTokenCount_def Let_def)

theorem normal_stream_frame_witness:
  "convertOpenAIStreamToAnthropic ''0123456789abcdef''
     [Parsed \<lparr> delta_content = Some ''Hi'', delta_tool_calls = None, finish_reason = None \<rparr>,
      Parsed \<lparr> delta_content = None, delta_tool_calls = None, finish_reason = Some ''stop'' \<rparr>]
     ''claude-3'' (JNum 7) ''req''
   = [MessageStart ''msg_stream_req_01234567'' ''claude-3'' [] (JNum 7) 0,
      Ping,
      ContentBlockStart 0 (TextBlock (StringContent [])),
      ContentBlockDelta 0 (TextDelta ''Hi''),
      ContentBlockStop 0,
      MessageDelta (StopReason ''end_turn'') 1,
      MessageStop]"
  using normal_stream_frame [OF sample_run, of "''0123456789abcdef''" "''claude-3''" "JNum 7"]
  by (simp add: block_stops_def)

text \<open>
  C5, as stated, fails: a stream of one text chunk with no finish reason is followed by
  \<open>content_block_stop\<close>, \<open>message_delta\<close> and \<open>message_stop\<close>.
\<close>

theorem exhausted_stream_emits_closing_events:
  "convertOpenAIStreamToAnthropic ''0123456789abcdef''
     [Parsed \<lparr> delta_content = Some ''Hi'', delta_tool_calls = None, finish_reason = None \<rparr>]
     ''claude-3'' (JNum 7) ''req''
   = [MessageStart ''msg_stream_req_01234567'' ''claude-3'' [] (JNum 7) 0,
      Ping,
      ContentBlockStart 0 (TextBlock (StringContent [])),
      ContentBlockDelta 0 (TextDelta ''Hi''),
      ContentBlockStop 0,
      MessageDelta (StopReason ''end_turn'') 1,
      MessageStop]"
  by (simp add: convertOpenAIStreamToAnthropic_def closing_events_def block_stops_def
      process_chunk_def handle_text_def handle_finish_def initial_state_def
      estimateTokenCount_def Let_def)

theorem exhausted_stream_still_closes_witness:
  "convertOpenAIStreamToAnthropic ''0123456789abcdef''
     [Unparseable,
      Parsed \<lparr> delta_content = Some ''Hi'', delta_tool_calls = None, finish_reason = None \<rparr>,
      NoChoices]
     ''claude-3'' (JNum 7) ''req''
   = [MessageStart ''msg_stream_req_01234567'' ''claude-3'' [] (JNum 7) 0,
      Ping,
      ContentBlockStart 0 (TextBlock (StringContent [])),
      ContentBlockDelta 0 (TextDelta ''Hi''),
      ContentBlockStop 0,
      MessageDelta (StopReason ''end_turn'') 1,
      MessageStop]"
proof -
  have q: "\<forall>x \<in> set [Unparseable,
      Parsed \<lparr> delta_content = Some ''Hi'', delta_tool_calls = None, finish_reason = None \<rparr>,
      NoChoices]. \<not> carries_finish_reason x \<and> \<not> is_raise x"
    by (simp add: carries_finish_reason_def is_raise_def truthy_def)
  obtain evs st where
    run: "consume ''req'' initial_state [Unparseable,
      Parsed \<lparr> delta_content = Some ''Hi'', delta_tool_calls = None, finish_reason = None \<rparr>,
      NoChoices] = (evs, None, st)"
    and out: "convertOpenAIStreamToAnthropic ''0123456789abcdef''
     [Unparseable,
      Parsed \<lparr> delta_content = Some ''Hi'', delta_tool_calls = None, finish_reason = None \<rparr>,
      NoChoices]
     ''claude-3'' (JNum 7) ''req''
     = MessageStart (''msg_stream_'' @ ''req'' @ ''_'' @ take 8 ''0123456789abcdef'') ''claude-3'' []
                 (JNum 7) 0
               # Ping
               # (evs @ block_stops st)
               @ [MessageDelta (StopReason ''end_turn'') (outputTokenCount st), MessageStop]"
    using exhausted_stream_still_closes [OF q, of "''req''" "''0123456789abcdef''" "''claude-3''" "JNum 7"]
    by blast
  have "evs = [ContentBlockStart 0 (TextBlock (StringContent [])),
               ContentBlockDelta 0 (TextDelta ''Hi'')]"
    and "block_stops st = [ContentBlockStop 0]" and "outputTokenCount st = 1"
    using run unfolding sample_run_open by (auto simp: block_stops_def)
  then show ?thesis unfolding out by simp
qed

subsection \<open>Tool blocks that never become openable\<close>

lemma allocate_tool_block_fresh:
  assumes "openaiToolIdxToAnthropicBlockIdx st (td_index td) = None"
  shows "allocate_tool_block requestId st td =
         st\<lparr> nextAnthropicBlockIdx := nextAnthropicBlockIdx st + 1,
             openaiToolIdxToAnthropicBlockIdx :=
               (openaiToolIdxToAnthropicBlockIdx st)(td_index td \<mapsto> nextAnthropicBlockIdx st),
             toolStates :=
               (toolStates st)
                 (nextAnthropicBlockIdx st \<mapsto>
                    \<lparr> tool_id =
                        or_else (td_id td)
                          (''tool_ph_'' @ requestId @ ''_''
                             @ string_of_nat (nextAnthropicBlockIdx st)),
                      tool_name = [],
                      argumentsBuffer = [] \<rparr>) \<rparr>"
  using assms unfolding allocate_tool_block_def Let_def by (simp only: refl if_True)

lemma placeholder_startsWith: "startsWith (''tool_ph_'' @ x) ''tool_ph_''"
  by (simp add: startsWith_def)

lemma fresh_id_pending:
  "\<not> has_concrete_id td \<Longrightarrow> startsWith (or_else (td_id td) (''tool_ph_'' @ x)) ''tool_ph_''"
  using placeholder_startsWith [of x]
  by (cases "td_id td") (auto simp: has_concrete_id_def truthy_def or_else_def)

lemma fresh_state_id_pending:
  "\<not> has_concrete_id td \<Longrightarrow>
     startsWith
       (tool_id \<lparr> tool_id = or_else (td_id td) (''tool_ph_'' @ x), tool_name = [],
                  argumentsBuffer = [] \<rparr>) ''tool_ph_''"
  using fresh_id_pending [of td x] by simp

lemma update_id_pending:
  "startsWith (tool_id ts) ''tool_ph_'' \<Longrightarrow> \<not> has_concrete_id td \<Longrightarrow>
     startsWith (tool_id (update_tool_state ts td)) ''tool_ph_''"
  by (simp add: update_tool_state_def has_concrete_id_def Let_def split: option.splits)

lemma update_name_pending:
  "tool_name ts = [] \<Longrightarrow> \<not> has_name td \<Longrightarrow> tool_name (update_tool_state ts td) = []"
  by (simp add: update_tool_state_def has_name_def Let_def split: option.splits)

text \<open>
  A property \<open>G\<close> of the tool state of source index \<open>k\<close> that a fresh state has and
  that every delta for \<open>k\<close> keeps, is kept by one tool-call delta.
\<close>

lemma pending_step:
  assumes upd: "\<And>ts. G ts \<Longrightarrow> td_index td = k \<Longrightarrow> G (update_tool_state ts td)"
    and fresh: "\<And>x. td_index td = k \<Longrightarrow>
        G \<lparr> tool_id = or_else (td_id td) (''tool_ph_'' @ x), tool_name = [],
            argumentsBuffer = [] \<rparr>"
    and ok: "state_ok s"
    and run: "process_tool_delta requestId s td = (e, oc, s')"
    and pend: "\<forall>i ts. openaiToolIdxToAnthropicBlockIdx s k = Some i \<longrightarrow>
        toolStates s i = Some ts \<longrightarrow> G ts"
  shows "\<forall>i ts. openaiToolIdxToAnthropicBlockIdx s' k = Some i \<longrightarrow>
        toolStates s' i = Some ts \<longrightarrow> G ts"
proof (intro allI impI)
  fix i ts
  assume ki: "openaiToolIdxToAnthropicBlockIdx s' k = Some i" and its: "toolStates s' i = Some ts"
  let ?s1 = "allocate_tool_block requestId s td"
  obtain cur ts0 where
    l: "openaiToolIdxToAnthropicBlockIdx ?s1 (td_index td) = Some cur"
      "toolStates ?s1 cur = Some ts0"
    and tm': "openaiToolIdxToAnthropicBlockIdx s' = openaiToolIdxToAnthropicBlockIdx ?s1"
    and ts': "toolStates s' = (toolStates ?s1)(cur \<mapsto> update_tool_state ts0 td)"
    using process_tool_delta_state [OF ok run] by blast
  have ok1: "state_ok ?s1" using ok by (rule state_ok_allocate)
  have ran_lt: "ran (openaiToolIdxToAnthropicBlockIdx s) \<subseteq> {..<nextAnthropicBlockIdx s}"
    using ok unfolding state_ok_def allocated_def by blast
  have g1: "G t" if "openaiToolIdxToAnthropicBlockIdx ?s1 k = Some j" "toolStates ?s1 j = Some t"
    for j t
  proof (cases "openaiToolIdxToAnthropicBlockIdx s (td_index td)")
    case (Some a)
    then have "?s1 = s" by (rule allocate_tool_block_old)
    then show ?thesis using that pend by simp
  next
    case None
    note eq = allocate_tool_block_fresh [OF None, of requestId]
    have tm1: "openaiToolIdxToAnthropicBlockIdx ?s1 =
        (openaiToolIdxToAnthropicBlockIdx s)(td_index td \<mapsto> nextAnthropicBlockIdx s)"
      and ts1: "toolStates ?s1 =
        (toolStates s)(nextAnthropicBlockIdx s \<mapsto>
           \<lparr> tool_id = or_else (td_id td)
                 (''tool_ph_'' @ requestId @ ''_'' @ string_of_nat (nextAnthropicBlockIdx s)),
             tool_name = [], argumentsBuffer = [] \<rparr>)"
      unfolding eq by simp_all
    show ?thesis
    proof (cases "td_index td = k")
      case True
      then have "j = nextAnthropicBlockIdx s" using that(1) tm1 by simp
      then have "t = \<lparr> tool_id = or_else (td_id td)
                 (''tool_ph_'' @ requestId @ ''_'' @ string_of_nat (nextAnthropicBlockIdx s)),
             tool_name = [], argumentsBuffer = [] \<rparr>"
        using that(2) ts1 by simp
      then show ?thesis using fresh [OF True] by simp
    next
      case False
      then have kj: "openaiToolIdxToAnthropicBlockIdx s k = Some j" using that(1) tm1 by simp
      then have "j \<in> ran (openaiToolIdxToAnthropicBlockIdx s)" by (rule ranI)
      then have "j \<noteq> nextAnthropicBlockIdx s" using ran_lt by auto
      then have "toolStates s j = Some t" using that(2) ts1 by simp
      then show ?thesis using pend kj by blast
    qed
  qed
  have ki1: "openaiToolIdxToAnthropicBlockIdx ?s1 k = Some i" using ki tm' by simp
  show "G ts"
  proof (cases "td_index td = k")
    case True
    then have "i = cur" using ki1 l(1) by simp
    then have "ts = update_tool_state ts0 td" using its ts' by simp
    moreover have "G ts0" using g1 [of cur ts0] l True by simp
    ultimately show ?thesis using upd True by simp
  next
    case False
    have inj: "inj_on (openaiToolIdxToAnthropicBlockIdx ?s1)
        (dom (openaiToolIdxToAnthropicBlockIdx ?s1))"
      using ok1 by (simp add: state_ok_def)
    have "i \<noteq> cur"
    proof
      assume "i = cur"
      then have "openaiToolIdxToAnthropicBlockIdx ?s1 k
          = openaiToolIdxToAnthropicBlockIdx ?s1 (td_index td)"
        using ki1 l(1) by simp
      moreover have "k \<in> dom (openaiToolIdxToAnthropicBlockIdx ?s1)"
        "td_index td \<in> dom (openaiToolIdxToAnthropicBlockIdx ?s1)"
        using ki1 l(1) by auto
      ultimately have "k = td_index td" using inj by (auto dest: inj_onD)
      then show False using False by simp
    qed
    then have "toolStates ?s1 i = Some ts" using its ts' by simp
    then show ?thesis using g1 [OF ki1] by simp
  qed
qed

lemma pending_consume:
  assumes upd: "\<And>ts td. G ts \<Longrightarrow> P td \<Longrightarrow> G (update_tool_state ts td)"
    and fresh: "\<And>x td. P td \<Longrightarrow>
        G \<lparr> tool_id = or_else (td_id td) (''tool_ph_'' @ x), tool_name = [],
            argumentsBuffer = [] \<rparr>"
    and ok: "state_ok st"
    and run: "consume requestId st items = (evs, oc, st')"
    and P: "\<forall>td \<in> set (consumed_tool_deltas k items). P td"
    and pend: "\<forall>i ts. openaiToolIdxToAnthropicBlockIdx st k = Some i \<longrightarrow>
        toolStates st i = Some ts \<longrightarrow> G ts"
  shows "\<forall>i ts. openaiToolIdxToAnthropicBlockIdx st' k = Some i \<longrightarrow>
        toolStates st' i = Some ts \<longrightarrow> G ts"
proof -
  let ?pend = "\<lambda>s. \<forall>i ts. openaiToolIdxToAnthropicBlockIdx s k = Some i \<longrightarrow>
        toolStates s i = Some ts \<longrightarrow> G ts"
  let ?R = "\<lambda>(s::stream_state) (es::event list) (s'::stream_state). ?pend s \<longrightarrow> ?pend s'"
  have "?R st evs st'"
  proof (rule consume_rel [where R = ?R and P = "\<lambda>td. td_index td = k \<longrightarrow> P td"
        and Q = "\<lambda>_. True", OF _ _ _ _ _ ok _ run])
    show "\<And>s. ?R s [] s" by simp
    show "\<And>s1 e1 s2 e2 s3. state_ok s1 \<Longrightarrow> state_ok s2 \<Longrightarrow>
       ?R s1 e1 s2 \<Longrightarrow> ?R s2 e2 s3 \<Longrightarrow> ?R s1 (e1 @ e2) s3" by blast
    show "\<And>s content s' e. state_ok s \<Longrightarrow> handle_text s content = (s', e) \<Longrightarrow> ?R s e s'"
    proof -
      fix s content s' e
      assume "handle_text s content = (s', e)"
      then have "openaiToolIdxToAnthropicBlockIdx s' = openaiToolIdxToAnthropicBlockIdx s"
        "toolStates s' = toolStates s"
        using handle_text_cases by fastforce+
      then show "?R s e s'" by simp
    qed
    show "\<And>s td e s'. state_ok s \<Longrightarrow> td_index td = k \<longrightarrow> P td \<Longrightarrow>
       process_tool_delta requestId s td = (e, None, s') \<Longrightarrow> ?R s e s'"
    proof
      fix s td e s'
      assume a: "state_ok s" "td_index td = k \<longrightarrow> P td"
        "process_tool_delta requestId s td = (e, None, s')" "?pend s"
      show "?pend s'"
        by (rule pending_step [where G = G, OF _ _ a(1) a(3) a(4)]) (use a(2) upd fresh in blast)+
    qed
    show "\<And>s c s'. state_ok s \<Longrightarrow> True \<Longrightarrow>
       handle_finish s (finish_reason c) = Some s' \<Longrightarrow> ?R s [] s'"
      by (auto simp: handle_finish_def split: option.splits if_splits)
    show "\<forall>c \<in> set (consumed items).
        True \<and> (\<forall>td \<in> set (tool_deltas_of c). td_index td = k \<longrightarrow> P td)"
      using P by (auto simp: consumed_tool_deltas_def)
  qed
  then show ?thesis using pend by blast
qed

lemma handle_tool_calls_tokens:
  "state_ok st \<Longrightarrow> handle_tool_calls requestId st tds = (evs, oc, st') \<Longrightarrow>
     outputTokenCount st' =
       outputTokenCount st
         + sum_list (map (\<lambda>td. case delta_arguments td of
                                  None \<Rightarrow> 0 | Some a \<Rightarrow> estimateTokenCount a) tds)"
proof (induction tds arbitrary: st evs oc st')
  case Nil
  then show ?case by simp
next
  case (Cons td tds)
  obtain e1 s1 where a: "process_tool_delta requestId st td = (e1, None, s1)" "step_ok st e1 s1"
    using process_tool_delta_ok [OF Cons.prems(1)] by blast
  have ok1: "state_ok s1" using step_okD(1) [OF a(2) Cons.prems(1)] .
  have t1: "outputTokenCount s1 =
       outputTokenCount st
         + (case delta_arguments td of None \<Rightarrow> 0 | Some a \<Rightarrow> estimateTokenCount a)"
    using process_tool_delta_state [OF Cons.prems(1) a(1)] by blast
  obtain e2 oc2 s2 where b: "handle_tool_calls requestId s1 tds = (e2, oc2, s2)"
    by (cases "handle_tool_calls requestId s1 tds") auto
  have "handle_tool_calls requestId st (td # tds) = (e1 @ e2, oc2, s2)"
    using a(1) b by simp
  then have "st' = s2" using Cons.prems(2) by simp
  then show ?case using Cons.IH [OF ok1 b] t1 by simp
qed

lemma handle_text_tokens:
  "handle_text st content = (st', evs) \<Longrightarrow>
     outputTokenCount st' =
       outputTokenCount st
         + (case content of None \<Rightarrow> 0 | Some t \<Rightarrow> estimateTokenCount t)"
  by (auto simp: handle_text_def Let_def estimateTokenCount_def
      split: option.splits if_splits)

lemma process_chunk_tokens:
  assumes ok: "state_ok st" and run: "process_chunk requestId st c = (evs, ctl, st')"
  shows "outputTokenCount st' = outputTokenCount st + chunk_tokens c"
proof -
  obtain s1 e1 where t: "handle_text st (delta_content c) = (s1, e1)"
    by (cases "handle_text st (delta_content c)") auto
  have ok1: "state_ok s1" using step_okD(1) [OF step_ok_handle_text [OF t] ok] .
  obtain e2 s2 where u: "handle_tool_calls requestId s1 (tool_deltas_of c) = (e2, None, s2)"
    using handle_tool_calls_ok [OF ok1] by blast
  have u': "handle_tool_calls requestId s1
      (case delta_tool_calls c of None \<Rightarrow> [] | Some tds \<Rightarrow> tds) = (e2, None, s2)"
    using u by (simp add: tool_deltas_of_def)
  have tok: "outputTokenCount s2 = outputTokenCount st + chunk_tokens c"
    using handle_text_tokens [OF t] handle_tool_calls_tokens [OF ok1 u]
    by (simp add: chunk_tokens_def)
  have "outputTokenCount st' = outputTokenCount s2"
  proof (cases "handle_finish s2 (finish_reason c)")
    case None
    then have "process_chunk requestId st c = (e1 @ e2, Continue, s2)"
      using t u' by (simp add: process_chunk_def)
    then show ?thesis using run by simp
  next
    case (Some s3)
    then have "process_chunk requestId st c = (e1 @ e2, Break, s3)"
      using t u' by (simp add: process_chunk_def)
    moreover have "outputTokenCount s3 = outputTokenCount s2"
      using Some by (auto simp: handle_finish_def split: option.splits if_splits)
    ultimately show ?thesis using run by simp
  qed
  then show ?thesis using tok by simp
qed

lemma consume_tokens:
  "state_ok st \<Longrightarrow> consume requestId st items = (evs, oc, st') \<Longrightarrow>
     outputTokenCount st' = outputTokenCount st + sum_list (map chunk_tokens (consumed items))"
proof (induction items arbitrary: st evs oc st')
  case Nil
  then show ?case by simp
next
  case (Cons x items)
  show ?case
  proof (cases x)
    case Unparseable
    then show ?thesis using Cons.IH [OF Cons.prems(1)] Cons.prems(2) by simp
  next
    case NoChoices
    then show ?thesis using Cons.IH [OF Cons.prems(1)] Cons.prems(2) by simp
  next
    case (Raises e)
    then show ?thesis using Cons.prems(2) by simp
  next
    case (Parsed c)
    obtain e1 s1 where a: "process_chunk requestId st c
            = (e1, if truthy (finish_reason c) then Break else Continue, s1)"
      and k1: "step_ok st e1 s1"
      using process_chunk_ok [OF Cons.prems(1)] by blast
    have ok1: "state_ok s1" using step_okD(1) [OF k1 Cons.prems(1)] .
    have t1: "outputTokenCount s1 = outputTokenCount st + chunk_tokens c"
      using process_chunk_tokens [OF Cons.prems(1) a] .
    show ?thesis
    proof (cases "truthy (finish_reason c)")
      case True
      then have "consume requestId st (x # items) = (e1, None, s1)"
        using a Parsed by simp
      then show ?thesis using t1 Cons.prems(2) True Parsed by simp
    next
      case False
      obtain e2 oc2 s2 where b: "consume requestId s1 items = (e2, oc2, s2)"
        by (cases "consume requestId s1 items") auto
      have "consume requestId st (x # items) = (e1 @ e2, oc2, s2)"
        using a b False Parsed by simp
      then have "st' = s2" using Cons.prems(2) by simp
      then show ?thesis using Cons.IH [OF ok1 b] t1 False Parsed by simp
    qed
  qed
qed

lemma block_indices_block_stops:
  "set (block_indices (block_stops st)) = opened st"
proof -
  have "block_indices (map ContentBlockStop xs) = xs" for xs
    by (induction xs) simp_all
  then show ?thesis
    by (auto simp: block_stops_def opened_def block_indices_append split: option.splits)
qed

lemma block_indices_output:
  assumes run: "consume requestId initial_state openaiStream = (evs, outcome, st)"
  shows "set (block_indices
            (convertOpenAIStreamToAnthropic uuid openaiStream model estimatedInputTokens requestId))
         \<subseteq> opened st"
proof -
  obtain evs' oc' st'' where r: "consume requestId initial_state openaiStream = (evs', oc', st'')"
    and k: "step_ok initial_state evs' st''"
    using consume_ok [OF state_ok_initial] by blast
  have k': "step_ok initial_state evs st" using r k run by simp
  have sub: "set (block_indices evs) \<subseteq> opened st"
    using step_okD(7) [OF k' state_ok_initial] .
  show ?thesis
  proof (cases outcome)
    case None
    then show ?thesis
      using run sub block_indices_block_stops [of st]
      by (simp add: convertOpenAIStreamToAnthropic_def closing_events_def block_indices_append)
  next
    case (Some e)
    then show ?thesis
      using run sub
      by (simp add: convertOpenAIStreamToAnthropic_def block_indices_append)
  qed
qed

lemma json_payloads_silent:
  "i \<notin> set (block_indices es) \<Longrightarrow> json_payloads i es = []"
  by (induction i es rule: json_payloads.induct) auto

text \<open>
  C10: take a source tool index \<open>k\<close> to which the loop gave block index \<open>i\<close>. If none of
  the deltas read for \<open>k\<close> carries a concrete id, or none carries a non-empty name, then
  the generator yields no event with block index \<open>i\<close> (no start, no delta, no stop), so
  none of the argument fragments buffered for the block is sent; the block's start is
  never recorded as sent; and the output-token estimate still counts every fragment
  read.
\<close>

theorem never_opened_block_is_silent:
  assumes run: "consume requestId initial_state openaiStream = (evs, outcome, st)"
    and blk: "openaiToolIdxToAnthropicBlockIdx st k = Some i"
    and never: "(\<forall>td \<in> set (consumed_tool_deltas k openaiStream). \<not> has_concrete_id td) \<or>
                (\<forall>td \<in> set (consumed_tool_deltas k openaiStream). \<not> has_name td)"
  shows "i \<notin> set (block_indices
            (convertOpenAIStreamToAnthropic uuid openaiStream model estimatedInputTokens requestId))
       \<and> json_payloads i
            (convertOpenAIStreamToAnthropic uuid openaiStream model estimatedInputTokens requestId)
           = []
       \<and> i \<notin> set (sentToolBlockStarts st)
       \<and> outputTokenCount st = sum_list (map chunk_tokens (consumed openaiStream))"
proof -
  obtain evs' oc' st'' where r: "consume requestId initial_state openaiStream = (evs', oc', st'')"
    and k: "step_ok initial_state evs' st''"
    using consume_ok [OF state_ok_initial] by blast
  have ok: "state_ok st" using step_okD(1) [OF k state_ok_initial] r run by simp
  have i_ran: "i \<in> ran (openaiToolIdxToAnthropicBlockIdx st)" using blk by (rule ranI)
  have disj: "set_option (textBlockAnthropicIdx st) \<inter> ran (openaiToolIdxToAnthropicBlockIdx st) = {}"
    and doms: "ran (openaiToolIdxToAnthropicBlockIdx st) \<subseteq> dom (toolStates st)"
    and conc: "\<forall>j \<in> set (sentToolBlockStarts st). \<forall>ts. toolStates st j = Some ts \<longrightarrow>
        \<not> startsWith (tool_id ts) ''tool_ph_'' \<and> tool_name ts \<noteq> []"
    using ok unfolding state_ok_def by blast+
  obtain ts where ts: "toolStates st i = Some ts" using doms i_ran by auto
  have init: "\<forall>j t. openaiToolIdxToAnthropicBlockIdx initial_state k = Some j \<longrightarrow>
        toolStates initial_state j = Some t \<longrightarrow> G t" for G
    by (simp add: initial_state_def)
  have pending: "startsWith (tool_id ts) ''tool_ph_'' \<or> tool_name ts = []"
    using never
  proof
    assume n: "\<forall>td \<in> set (consumed_tool_deltas k openaiStream). \<not> has_concrete_id td"
    have "\<forall>j t. openaiToolIdxToAnthropicBlockIdx st k = Some j \<longrightarrow>
        toolStates st j = Some t \<longrightarrow> startsWith (tool_id t) ''tool_ph_''"
      by (rule pending_consume [where G = "\<lambda>t. startsWith (tool_id t) ''tool_ph_''"
            and P = "\<lambda>td. \<not> has_concrete_id td", OF _ _ state_ok_initial run n init])
        (blast intro: update_id_pending fresh_state_id_pending)+
    then show ?thesis using blk ts by blast
  next
    assume n: "\<forall>td \<in> set (consumed_tool_deltas k openaiStream). \<not> has_name td"
    have "\<forall>j t. openaiToolIdxToAnthropicBlockIdx st k = Some j \<longrightarrow>
        toolStates st j = Some t \<longrightarrow> tool_name t = []"
      by (rule pending_consume [where G = "\<lambda>t. tool_name t = []"
            and P = "\<lambda>td. \<not> has_name td", OF _ _ state_ok_initial run n init])
        (simp_all add: update_name_pending)
    then show ?thesis using blk ts by blast
  qed
  have not_sent: "i \<notin> set (sentToolBlockStarts st)"
    using pending conc ts by blast
  have "i \<notin> set_option (textBlockAnthropicIdx st)" using disj i_ran by blast
  then have "i \<notin> opened st" using not_sent by (simp add: opened_def)
  then have silent: "i \<notin> set (block_indices
            (convertOpenAIStreamToAnthropic uuid openaiStream model estimatedInputTokens requestId))"
    using block_indices_output [OF run, of uuid model estimatedInputTokens] by blast
  have tok: "outputTokenCount st = sum_list (map chunk_tokens (consumed openaiStream))"
    using consume_tokens [OF state_ok_initial run] by (simp add: initial_state_def)
  show ?thesis using silent json_payloads_silent [OF silent] not_sent tok by blast
qed

subsection \<open>Sample runs\<close>

lemmas run_defs =
  process_chunk_def handle_text_def handle_finish_def process_tool_delta_def
  allocate_tool_block_def apply_tool_delta_def update_tool_state_def delta_arguments_def
  truthy_def or_else_def startsWith_def initial_state_def estimateTokenCount_def
  lookupStopReason_def openaiToAnthropicStopReasonMap_def Let_def
  string_of_nat.simps [of 0] string_of_nat.simps [of 1]

text \<open>
  One tool call whose id and name arrive only on the last fragment, after a first
  fragment of arguments.
\<close>

lemma sample_run_late_tool:
  "consume ''req'' initial_state
     [Parsed \<lparr> delta_content = None,
        delta_tool_calls = Some
          [\<lparr> td_index = 0, td_id = None,
             td_function = Some \<lparr> fn_name = None, fn_arguments = Some ''{\"a\":'' \<rparr> \<rparr>],
        finish_reason = None \<rparr>,
      Parsed \<lparr> delta_content = None,
        delta_tool_calls = Some
          [\<lparr> td_index = 0, td_id = Some ''call_1'',
             td_function = Some \<lparr> fn_name = Some ''get_weather'', fn_arguments = Some ''1}'' \<rparr> \<rparr>],
        finish_reason = Some ''tool_calls'' \<rparr>]
   = ([ContentBlockStart 0 (ToolUseBlock ''call_1'' ''get_weather'' (JObj [])),
       ContentBlockDelta 0 (InputJsonDelta ''1}'')],
      None,
      \<lparr> nextAnthropicBlockIdx = 1,
        textBlockAnthropicIdx = None,
        openaiToolIdxToAnthropicBlockIdx = [0 \<mapsto> 0],
        toolStates = [0 \<mapsto> \<lparr> tool_id = ''call_1'', tool_name = ''get_weather'',
                               argumentsBuffer = ''{\"a\":1}'' \<rparr>],
        sentToolBlockStarts = [0],
        outputTokenCount = 3,
        finalAnthropicStopReason = StopReason ''tool_use'' \<rparr>)"
  by (simp add: run_defs)

subsection \<open>Block starts and stops\<close>








subsection \<open>Allocation over a prefix of the stream\<close>


subsection \<open>Indices follow the order of first use\<close>





















lemma sample_state_silent_tool:
  "fst (snd (consume ''req'' initial_state
        [Parsed \<lparr> delta_content = None,
           delta_tool_calls = Some
             [\<lparr> td_index = 0, td_id = None,
                td_function = Some \<lparr> fn_name = None, fn_arguments = Some ''{\"a\":'' \<rparr> \<rparr>],
           finish_reason = None \<rparr>,
         Parsed \<lparr> delta_content = Some ''Hi'',
           delta_tool_calls = Some
             [\<lparr> td_index = 0, td_id = None,
                td_function = Some \<lparr> fn_name = None, fn_arguments = Some ''1}'' \<rparr> \<rparr>],
           finish_reason = Some ''stop'' \<rparr>])) = None \<and>
   openaiToolIdxToAnthropicBlockIdx
     (snd (snd (consume ''req'' initial_state
        [Parsed \<lparr> delta_content = None,
           delta_tool_calls = Some
             [\<lparr> td_index = 0, td_id = None,
                td_function = Some \<lparr> fn_name = None, fn_arguments = Some ''{\"a\":'' \<rparr> \<rparr>],
           finish_reason = None \<rparr>,
         Parsed \<lparr> delta_content = Some ''Hi'',
           delta_tool_calls = Some
             [\<lparr> td_index = 0, td_id = None,
                td_function = Some \<lparr> fn_name = None, fn_arguments = Some ''1}'' \<rparr> \<rparr>],
           finish_reason = Some ''stop'' \<rparr>]))) 0 = Some 0 \<and>
   outputTokenCount
     (snd (snd (consume ''req'' initial_state
        [Parsed \<lparr> delta_content = None,
           delta_tool_calls = Some
             [\<lparr> td_index = 0, td_id = None,
                td_function = Some \<lparr> fn_name = None, fn_arguments = Some ''{\"a\":'' \<rparr> \<rparr>],
           finish_reason = None \<rparr>,
         Parsed \<lparr> delta_content = Some ''Hi'',
           delta_tool_calls = Some
             [\<lparr> td_index = 0, td_id = None,
                td_function = Some \<lparr> fn_name = None, fn_arguments = Some ''1}'' \<rparr> \<rparr>],
           finish_reason = Some ''stop'' \<rparr>]))) = 4"
  by (simp add: run_defs)

theorem never_opened_block_is_silent_witness:
  "0 \<notin> set (block_indices
      (convertOpenAIStreamToAnthropic ''0123456789abcdef''
        [Parsed \<lparr> delta_content = None,
           delta_tool_calls = Some
             [\<lparr> td_index = 0, td_id = None,
                td_function = Some \<lparr> fn_name = None, fn_arguments = Some ''{\"a\":'' \<rparr> \<rparr>],
           finish_reason = None \<rparr>,
         Parsed \<lparr> delta_content = Some ''Hi'',
           delta_tool_calls = Some
             [\<lparr> td_index = 0, td_id = None,
                td_function = Some \<lparr> fn_name = None, fn_arguments = Some ''1}'' \<rparr> \<rparr>],
           finish_reason = Some ''stop'' \<rparr>]
        ''claude-3'' (JNum 7) ''req''))
   \<and> json_payloads 0
      (convertOpenAIStreamToAnthropic ''0123456789abcdef''
        [Parsed \<lparr> delta_content = None,
           delta_tool_calls = Some
             [\<lparr> td_index = 0, td_id = None,
                td_function = Some \<lparr> fn_name = None, fn_arguments = Some ''{\"a\":'' \<rparr> \<rparr>],
           finish_reason = None \<rparr>,
         Parsed \<lparr> delta_content = Some ''Hi'',
           delta_tool_calls = Some
             [\<lparr> td_index = 0, td_id = None,
                td_function = Some \<lparr> fn_name = None, fn_arguments = Some ''1}'' \<rparr> \<rparr>],
           finish_reason = Some ''stop'' \<rparr>]
        ''claude-3'' (JNum 7) ''req'') = []
   \<and> sum_list (map chunk_tokens (consumed
        [Parsed \<lparr> delta_content = None,
           delta_tool_calls = Some
             [\<lparr> td_index = 0, td_id = None,
                td_function = Some \<lparr> fn_name = None, fn_arguments = Some ''{\"a\":'' \<rparr> \<rparr>],
           finish_reason = None \<rparr>,
         Parsed \<lparr> delta_content = Some ''Hi'',
           delta_tool_calls = Some
             [\<lparr> td_index = 0, td_id = None,
                td_function = Some \<lparr> fn_name = None, fn_arguments = Some ''1}'' \<rparr> \<rparr>],
           finish_reason = Some ''stop'' \<rparr>])) = 4"
proof -
  let ?items = "[Parsed \<lparr> delta_content = None,
           delta_tool_calls = Some
             [\<lparr> td_index = 0, td_id = None,
                td_function = Some \<lparr> fn_name = None, fn_arguments = Some ''{\"a\":'' \<rparr> \<rparr>],
           finish_reason = None \<rparr>,
         Parsed \<lparr> delta_content = Some ''Hi'',
           delta_tool_calls = Some
             [\<lparr> td_index = 0, td_id = None,
                td_function = Some \<lparr> fn_name = None, fn_arguments = Some ''1}'' \<rparr> \<rparr>],
           finish_reason = Some ''stop'' \<rparr>]"
  obtain evs st where h: "consume ''req'' initial_state ?items = (evs, None, st)"
    and blk: "openaiToolIdxToAnthropicBlockIdx st 0 = Some 0"
    and tok: "outputTokenCount st = 4"
    using sample_state_silent_tool
    by (cases "consume ''req'' initial_state ?items") auto
  have never: "(\<forall>td \<in> set (consumed_tool_deltas 0 ?items). \<not> has_concrete_id td) \<or>
               (\<forall>td \<in> set (consumed_tool_deltas 0 ?items). \<not> has_name td)"
    by (simp add: consumed_tool_deltas_def tool_deltas_of_def has_concrete_id_def truthy_def)
  show ?thesis
    using never_opened_block_is_silent
      [OF h blk never, of "''0123456789abcdef''" "''claude-3''" "JNum 7"] tok
    by simp
qed

text \<open>
  C1 does not hold of the code. A tool call whose first fragment carries arguments only
  and whose last fragment carries the id, the name and the rest of the arguments is
  opened at the last fragment, and only that fragment's arguments are sent: the buffer
  holds both fragments, the \<open>input_json_delta\<close> payloads of the block concatenate to the
  last fragment alone.
\<close>

theorem buffered_fragments_not_flushed:
  "convertOpenAIStreamToAnthropic ''0123456789abcdef''
     [Parsed \<lparr> delta_content = None,
        delta_tool_calls = Some
          [\<lparr> td_index = 0, td_id = None,
             td_function = Some \<lparr> fn_name = None, fn_arguments = Some ''{\"a\":'' \<rparr> \<rparr>],
        finish_reason = None \<rparr>,
      Parsed \<lparr> delta_content = None,
        delta_tool_calls = Some
          [\<lparr> td_index = 0, td_id = Some ''call_1'',
             td_function = Some \<lparr> fn_name = Some ''get_weather'', fn_arguments = Some ''1}'' \<rparr> \<rparr>],
        finish_reason = Some ''tool_calls'' \<rparr>]
     ''claude-3'' (JNum 7) ''req''
   = [MessageStart ''msg_stream_req_01234567'' ''claude-3'' [] (JNum 7) 0,
      Ping,
      ContentBlockStart 0 (ToolUseBlock ''call_1'' ''get_weather'' (JObj [])),
      ContentBlockDelta 0 (InputJsonDelta ''1}''),
      ContentBlockStop 0,
      MessageDelta (StopReason ''tool_use'') 3,
      MessageStop]
   \<and> concat (json_payloads 0
        (convertOpenAIStreamToAnthropic ''0123456789abcdef''
           [Parsed \<lparr> delta_content = None,
              delta_tool_calls = Some
                [\<lparr> td_index = 0, td_id = None,
                   td_function = Some \<lparr> fn_name = None, fn_arguments = Some ''{\"a\":'' \<rparr> \<rparr>],
              finish_reason = None \<rparr>,
            Parsed \<lparr> delta_content = None,
              delta_tool_calls = Some
                [\<lparr> td_index = 0, td_id = Some ''call_1'',
                   td_function =
                     Some \<lparr> fn_name = Some ''get_weather'', fn_arguments = Some ''1}'' \<rparr> \<rparr>],
              finish_reason = Some ''tool_calls'' \<rparr>]
           ''claude-3'' (JNum 7) ''req'')) = ''1}''
   \<and> concat (map (\<lambda>td. case delta_arguments td of None \<Rightarrow> [] | Some a \<Rightarrow> a)
        (consumed_tool_deltas 0
           [Parsed \<lparr> delta_content = None,
              delta_tool_calls = Some
                [\<lparr> td_index = 0, td_id = None,
                   td_function = Some \<lparr> fn_name = None, fn_arguments = Some ''{\"a\":'' \<rparr> \<rparr>],
              finish_reason = None \<rparr>,
            Parsed \<lparr> delta_content = None,
              delta_tool_calls = Some
                [\<lparr> td_index = 0, td_id = Some ''call_1'',
                   td_function =
                     Some \<lparr> fn_name = Some ''get_weather'', fn_arguments = Some ''1}'' \<rparr> \<rparr>],
              finish_reason = Some ''tool_calls'' \<rparr>])) = ''{\"a\":1}''"
  by (simp add: convertOpenAIStreamToAnthropic_def closing_events_def block_stops_def
      consumed_tool_deltas_def tool_deltas_of_def run_defs)

end
